theory Spec2Isabelle
  imports Main
begin

text \<open>
  The command builder \<open>FFmpegCommand\<close> of \<open>ffmpeg.ts\<close> and the stream bridge
  \<open>NamedPipeStream\<close> it uses, as functions on explicit state: the builder methods,
  the lowering of the settings to the argument vector in \<open>run\<close>, the buffer of
  diagnostic lines, and the bridge with its server. Every \<open>throw\<close> is a result
  \<open>Inl (Error message)\<close>. What the code takes from JavaScript itself (numbers and
  their conversions, truthiness, \<open>join\<close>, \<open>split\<close>, \<open>slice\<close>, \<open>flat\<close>) comes
  first.
\<close>

section \<open>JavaScript numbers\<close>

text \<open>
  A JavaScript number is an IEEE-754 double: not-a-number, the two infinities, or a
  finite value. \<open>Fin m e\<close> is the finite double \<open>m * 2 ^ e\<close>; its canonical form has
  \<open>m\<close> odd, and zero is \<open>Fin 0 0\<close>. Negative zero is identified with zero: the code
  only tests numbers for truthiness and against \<open>0\<close>, compares them with a length,
  subtracts them from it, divides them by \<open>100\<close> and prints them, and none of these
  tells the two zeros apart in what it yields.
  Strings are lists of 8-bit characters.
\<close>

datatype jsnum = NaN | PInf | NInf | Fin int int

text \<open>A non-negative rational as numerator and (positive) denominator.\<close>

type_synonym ratio = "int \<times> int"

text \<open>\<open>scale b x k\<close> is \<open>x * b ^ k\<close>, for an exponent of either sign.\<close>

definition scale :: "int \<Rightarrow> ratio \<Rightarrow> int \<Rightarrow> ratio" where
  "scale b x k =
     (case x of (n, d) \<Rightarrow> if 0 \<le> k then (n * b ^ nat k, d) else (n, d * b ^ nat (- k)))"

text \<open>The number of base-\<open>b\<close> digits of \<open>n\<close>.\<close>

fun ndigits :: "nat \<Rightarrow> nat \<Rightarrow> nat" where
  "ndigits b n = (if n = 0 \<or> b < 2 then 0 else Suc (ndigits b (n div b)))"

declare ndigits.simps [simp del]

text \<open>
  \<open>ilog b x\<close> is the integer \<open>t\<close> with \<open>b ^ t \<le> x < b ^ (t + 1)\<close>, for positive \<open>x\<close>: the
  difference of the digit counts of numerator and denominator, or one less.
\<close>

definition ilog :: "int \<Rightarrow> ratio \<Rightarrow> int" where
  "ilog b x =
     (let t = int (ndigits (nat b) (nat (fst x))) - int (ndigits (nat b) (nat (snd x)));
          y = scale b x (- t)
      in if fst y < snd y then t - 1 else t)"

text \<open>The nearest integer, ties to the even one.\<close>

definition round_half_even :: "ratio \<Rightarrow> int" where
  "round_half_even x =
     (let q = fst x div snd x; r = fst x mod snd x
      in if 2 * r < snd x then q
         else if snd x < 2 * r then q + 1
         else if even q then q else q + 1)"

fun strip_factor :: "nat \<Rightarrow> nat \<Rightarrow> int \<Rightarrow> nat \<times> int" where
  "strip_factor b m e =
     (if m \<noteq> 0 \<and> 2 \<le> b \<and> m mod b = 0 then strip_factor b (m div b) (e + 1) else (m, e))"

declare strip_factor.simps [simp del]

text \<open>The canonical form of the double \<open>\<plusminus> m * 2 ^ q\<close>.\<close>

definition fin :: "bool \<Rightarrow> int \<Rightarrow> int \<Rightarrow> jsnum" where
  "fin neg m q =
     (if m = 0 then Fin 0 0
      else case strip_factor 2 (nat m) q of
             (m', q') \<Rightarrow> Fin (if neg then - int m' else int m') q')"

text \<open>
  The double nearest to a rational (round to nearest, ties to even), with the sign
  given apart: a significand of 53 bits, the exponent of the last bit not below
  \<open>-1074\<close> (below the normal range the spacing stays \<open>2 ^ -1074\<close> and the value may
  round to zero), and infinity from \<open>2 ^ 1024\<close> on.
\<close>

definition round_double :: "bool \<Rightarrow> ratio \<Rightarrow> jsnum" where
  "round_double neg x =
     (if fst x = 0 then Fin 0 0
      else
        let q = max (ilog 2 x - 52) (- 1074);
            m = round_half_even (scale 2 x (- q))
        in if 0 \<le> q \<and> 2 ^ 1024 \<le> m * 2 ^ nat q then (if neg then NInf else PInf)
           else fin neg m q)"

text \<open>The number an integer literal denotes.\<close>

definition js_int :: "int \<Rightarrow> jsnum" where
  "js_int n = round_double (n < 0) (\<bar>n\<bar>, 1)"

text \<open>\<open>x / c\<close> for a positive integer \<open>c\<close>.\<close>

fun num_div :: "jsnum \<Rightarrow> int \<Rightarrow> jsnum" where
  "num_div (Fin m e) c = round_double (m < 0) (scale 2 (\<bar>m\<bar>, c) e)"
| "num_div x c = x"

text \<open>Truthiness, \<open>Number.isFinite\<close>, \<open>Number.isNaN\<close> and \<open>x <= 0\<close>.\<close>

fun num_truthy :: "jsnum \<Rightarrow> bool" where
  "num_truthy NaN = False"
| "num_truthy (Fin m e) = (m \<noteq> 0)"
| "num_truthy x = True"

fun num_isFinite :: "jsnum \<Rightarrow> bool" where
  "num_isFinite (Fin m e) = True"
| "num_isFinite x = False"

fun num_isNaN :: "jsnum \<Rightarrow> bool" where
  "num_isNaN NaN = True"
| "num_isNaN x = False"

fun num_le_zero :: "jsnum \<Rightarrow> bool" where
  "num_le_zero NaN = False"
| "num_le_zero PInf = False"
| "num_le_zero NInf = True"
| "num_le_zero (Fin m e) = (m \<le> 0)"

subsection \<open>An array length and a number\<close>

text \<open>
  The length of an array is an integer below \<open>2 ^ 32\<close>, which a double holds
  exactly: the model keeps it as an integer. \<open>length_gt n x\<close> is \<open>n > x\<close> and
  \<open>length_minus n x\<close> is \<open>n - x\<close>, the exact difference rounded to a double; both
  for a length \<open>n\<close>. A comparison with \<open>NaN\<close> is false.
\<close>

fun length_gt :: "int \<Rightarrow> jsnum \<Rightarrow> bool" where
  "length_gt n NaN = False"
| "length_gt n PInf = False"
| "length_gt n NInf = True"
| "length_gt n (Fin m e) = (if 0 \<le> e then m * 2 ^ nat e < n else m < n * 2 ^ nat (- e))"

text \<open>The double nearest to a rational whose numerator carries the sign.\<close>

definition signed_round :: "ratio \<Rightarrow> jsnum" where
  "signed_round x = round_double (fst x < 0) (\<bar>fst x\<bar>, snd x)"

fun length_minus :: "int \<Rightarrow> jsnum \<Rightarrow> jsnum" where
  "length_minus n NaN = NaN"
| "length_minus n PInf = NInf"
| "length_minus n NInf = PInf"
| "length_minus n (Fin m e) =
     signed_round (if 0 \<le> e then (n - m * 2 ^ nat e, 1)
                   else (n * 2 ^ nat (- e) - m, 2 ^ nat (- e)))"

text \<open>
  The integer part of a finite number, its fraction dropped (toward zero), and the
  least integer not below it.
\<close>

definition trunc_fin :: "int \<Rightarrow> int \<Rightarrow> int" where
  "trunc_fin m e =
     (if 0 \<le> e then m * 2 ^ nat e
      else if 0 \<le> m then m div 2 ^ nat (- e)
      else - ((- m) div 2 ^ nat (- e)))"

definition ceiling_fin :: "int \<Rightarrow> int \<Rightarrow> int" where
  "ceiling_fin m e = (if 0 \<le> e then m * 2 ^ nat e else - ((- m) div 2 ^ nat (- e)))"

subsection \<open>Number to string\<close>

definition digit_char :: "nat \<Rightarrow> char" where
  "digit_char d = ''0123456789'' ! d"

fun dec :: "nat \<Rightarrow> string" where
  "dec n = (if n < 10 then [digit_char n] else dec (n div 10) @ [digit_char (n mod 10)])"

declare dec.simps [simp del]

text \<open>Does the decimal \<open>s * 10 ^ p\<close> denote the double \<open>m * 2 ^ e\<close>?\<close>

definition round_trips :: "int \<Rightarrow> int \<Rightarrow> int \<Rightarrow> int \<Rightarrow> bool" where
  "round_trips m e s p = (round_double False (scale 10 (s, 1) p) = Fin m e)"

text \<open>
  \<open>Number::toString\<close> prints the decimal with the fewest digits that denotes the
  number, the closest to it if there are several. \<open>shortest\<close> tries \<open>k = 1, 2, \<dots>\<close>
  digits, for a number with \<open>n\<close> digits before the decimal point: with \<open>k\<close> digits
  only the two decimals next to the number can denote it. Seventeen digits always
  suffice for a double.
\<close>

fun shortest :: "nat \<Rightarrow> int \<Rightarrow> int \<Rightarrow> int \<Rightarrow> int \<Rightarrow> int \<times> int" where
  "shortest fuel m e n k =
     (let p = n - k;
          scaled = scale 10 (scale 2 (m, 1) e) (- p);
          near = round_half_even scaled;
          other = (if near * snd scaled \<le> fst scaled then near + 1 else near - 1)
      in if round_trips m e near p then (near, p)
         else if round_trips m e other p then (other, p)
         else if fuel = 0 then (near, p)
         else shortest (fuel - 1) m e n (k + 1))"

declare shortest.simps [simp del]

definition shortest_decimal :: "int \<Rightarrow> int \<Rightarrow> nat \<times> int" where
  "shortest_decimal m e =
     (let sp = shortest 16 m e (ilog 10 (scale 2 (m, 1) e) + 1) 1
      in strip_factor 10 (nat (fst sp)) (snd sp))"

text \<open>
  The layout of the digits \<open>ds\<close> of a number with \<open>n\<close> digits before the decimal
  point: plain digits up to \<open>10 ^ 21\<close>, a decimal point, leading zeros down to
  \<open>10 ^ -6\<close>, and the exponent notation otherwise.
\<close>

definition format_digits :: "string \<Rightarrow> int \<Rightarrow> string" where
  "format_digits ds n =
     (let k = int (length ds)
      in if k \<le> n \<and> n \<le> 21 then ds @ replicate (nat (n - k)) CHR ''0''
         else if 0 < n \<and> n \<le> 21 then take (nat n) ds @ ''.'' @ drop (nat n) ds
         else if - 6 < n \<and> n \<le> 0 then ''0.'' @ replicate (nat (- n)) CHR ''0'' @ ds
         else
           (if k = 1 then ds else take 1 ds @ ''.'' @ drop 1 ds)
           @ ''e'' @ (if n - 1 < 0 then ''-'' else ''+'') @ dec (nat \<bar>n - 1\<bar>))"

definition format_decimal :: "nat \<times> int \<Rightarrow> string" where
  "format_decimal sp = format_digits (dec (fst sp)) (snd sp + int (length (dec (fst sp))))"

definition pos_toString :: "int \<Rightarrow> int \<Rightarrow> string" where
  "pos_toString m e = format_decimal (shortest_decimal m e)"

fun num_toString :: "jsnum \<Rightarrow> string" where
  "num_toString NaN = ''NaN''"
| "num_toString PInf = ''Infinity''"
| "num_toString NInf = ''-Infinity''"
| "num_toString (Fin m e) =
     (if m = 0 then ''0''
      else if m < 0 then ''-'' @ pos_toString (- m) e
      else pos_toString m e)"

subsection \<open>String to number\<close>

text \<open>The white space both parsers skip, among the 8-bit characters.\<close>

definition is_space :: "char \<Rightarrow> bool" where
  "is_space c = (of_char c \<in> {9, 10, 11, 12, 13, 32, 160 :: nat})"

definition is_digit :: "char \<Rightarrow> bool" where
  "is_digit c = (c \<in> set ''0123456789'')"

definition is_hex_digit :: "char \<Rightarrow> bool" where
  "is_hex_digit c = (c \<in> set ''0123456789abcdefABCDEF'')"

definition digit_val :: "char \<Rightarrow> int" where
  "digit_val c =
     (let n = (of_char c :: nat)
      in if 48 \<le> n \<and> n \<le> 57 then int n - 48
         else if 97 \<le> n \<and> n \<le> 102 then int n - 87
         else int n - 55)"

definition digits_val :: "int \<Rightarrow> string \<Rightarrow> int" where
  "digits_val radix ds = foldl (\<lambda>acc c. acc * radix + digit_val c) 0 ds"

definition starts_with :: "string \<Rightarrow> string \<Rightarrow> bool" where
  "starts_with p s = (take (length p) s = p)"

definition ends_with :: "string \<Rightarrow> string \<Rightarrow> bool" where
  "ends_with p s = (length p \<le> length s \<and> drop (length s - length p) s = p)"

definition strip_sign :: "string \<Rightarrow> bool \<times> string" where
  "strip_sign s =
     (if starts_with ''-'' s then (True, drop 1 s)
      else if starts_with ''+'' s then (False, drop 1 s)
      else (False, s))"

text \<open>An exponent part counts only with at least one digit.\<close>

definition exponent_part :: "string \<Rightarrow> int" where
  "exponent_part s =
     (if starts_with ''e'' s \<or> starts_with ''E'' s then
        (let se = strip_sign (drop 1 s);
             ds = takeWhile is_digit (snd se)
         in if ds = [] then 0 else if fst se then - digits_val 10 ds else digits_val 10 ds)
      else 0)"

definition parse_unsigned :: "bool \<Rightarrow> string \<Rightarrow> jsnum" where
  "parse_unsigned neg s =
     (if starts_with ''Infinity'' s then (if neg then NInf else PInf)
      else
        let ip = takeWhile is_digit s;
            r1 = dropWhile is_digit s;
            fp = (if starts_with ''.'' r1 then takeWhile is_digit (drop 1 r1) else []);
            r2 = (if starts_with ''.'' r1 then dropWhile is_digit (drop 1 r1) else r1)
        in if ip = [] \<and> fp = [] then NaN
           else round_double neg
                  (scale 10 (digits_val 10 (ip @ fp), 1) (exponent_part r2 - int (length fp))))"

text \<open>
  \<open>Number.parseFloat\<close>: leading white space is skipped and the longest prefix that
  is a decimal literal is read; \<open>NaN\<close> when there is none.
\<close>

definition js_parseFloat :: "string \<Rightarrow> jsnum" where
  "js_parseFloat s =
     (let se = strip_sign (dropWhile is_space s) in parse_unsigned (fst se) (snd se))"

definition parse_digits :: "bool \<Rightarrow> int \<Rightarrow> string \<Rightarrow> jsnum" where
  "parse_digits neg radix z =
     (if z = [] then NaN else round_double neg (digits_val radix z, 1))"

text \<open>
  \<open>Number.parseInt\<close> with no radix: leading white space, a sign, an optional
  \<open>0x\<close> prefix (then the digits are hexadecimal), and the longest prefix of digits;
  \<open>NaN\<close> when there is none.
\<close>

definition js_parseInt :: "string \<Rightarrow> jsnum" where
  "js_parseInt s =
     (let se = strip_sign (dropWhile is_space s)
      in if starts_with ''0x'' (snd se) \<or> starts_with ''0X'' (snd se)
         then parse_digits (fst se) 16 (takeWhile is_hex_digit (drop 2 (snd se)))
         else parse_digits (fst se) 10 (takeWhile is_digit (snd se)))"

section \<open>Other JavaScript values\<close>

text \<open>
  The primitive values a caller may pass where the code takes \<open>unknown\<close>: the
  argument of \<open>loop\<close> and the values of a filter's option record.
\<close>

datatype jsval = VUndefined | VNull | VBool bool | VNum jsnum | VStr string

fun truthy :: "jsval \<Rightarrow> bool" where
  "truthy VUndefined = False"
| "truthy VNull = False"
| "truthy (VBool b) = b"
| "truthy (VNum n) = num_truthy n"
| "truthy (VStr s) = (s \<noteq> [])"

text \<open>The string a template literal \<open>`${v}`\<close> yields.\<close>

fun js_toString :: "jsval \<Rightarrow> string" where
  "js_toString VUndefined = ''undefined''"
| "js_toString VNull = ''null''"
| "js_toString (VBool b) = (if b then ''true'' else ''false'')"
| "js_toString (VNum n) = num_toString n"
| "js_toString (VStr s) = s"

text \<open>\<open>Array.prototype.join\<close> on an array of strings.\<close>

fun js_join :: "string \<Rightarrow> string list \<Rightarrow> string" where
  "js_join sep [] = []"
| "js_join sep [x] = x"
| "js_join sep (x # y # rest) = x @ sep @ js_join sep (y # rest)"

text \<open>\<open>String.prototype.split\<close> on a one-character separator.\<close>

fun split_from :: "char \<Rightarrow> string \<Rightarrow> string \<Rightarrow> string list" where
  "split_from sep cur [] = [cur]"
| "split_from sep cur (c # cs) =
     (if c = sep then cur # split_from sep [] cs else split_from sep (cur @ [c]) cs)"

definition js_split :: "char \<Rightarrow> string \<Rightarrow> string list" where
  "js_split sep s = split_from sep [] s"

text \<open>An array element by index, \<open>undefined\<close> out of range.\<close>

definition at_index :: "'a list \<Rightarrow> nat \<Rightarrow> 'a option" where
  "at_index xs i = (if i < length xs then Some (xs ! i) else None)"

text \<open>
  \<open>Array.prototype.slice(start)\<close>. The start is made an integer first: \<open>NaN\<close> is
  \<open>0\<close> and a finite number loses its fraction. A negative start counts from the
  end, and the start is clamped to the array: \<open>slice_from\<close> is the slice from an
  integer start. With \<open>-Infinity\<close> the slice starts at \<open>0\<close>, with \<open>Infinity\<close> at the
  end.
\<close>

definition slice_from :: "int \<Rightarrow> 'a list \<Rightarrow> 'a list" where
  "slice_from start xs =
     (let len = int (length xs);
          k = (if start < 0 then max (len + start) 0 else min start len)
      in drop (nat k) xs)"

fun js_slice :: "jsnum \<Rightarrow> 'a list \<Rightarrow> 'a list" where
  "js_slice NaN xs = slice_from 0 xs"
| "js_slice PInf xs = []"
| "js_slice NInf xs = xs"
| "js_slice (Fin m e) xs = slice_from (trunc_fin m e) xs"

text \<open>An argument that is an element or an array of elements, and \<open>flat()\<close>.\<close>

datatype 'a OneOrMany = Single 'a | Several "'a list"

fun flat :: "'a OneOrMany list \<Rightarrow> 'a list" where
  "flat [] = []"
| "flat (Single x # rest) = x # flat rest"
| "flat (Several xs # rest) = xs @ flat rest"

section \<open>The settings of \<open>ffmpeg.ts\<close>\<close>

text \<open>\<open>Time = number | TimeString\<close> and \<open>Bitrate = number | `${number}` | `${number}k`\<close>.\<close>

datatype Time = TimeNum jsnum | TimeStr string

datatype Bitrate = BitrateNum jsnum | BitrateStr string

fun time_truthy :: "Time \<Rightarrow> bool" where
  "time_truthy (TimeNum n) = num_truthy n"
| "time_truthy (TimeStr s) = (s \<noteq> [])"

fun time_toString :: "Time \<Rightarrow> string" where
  "time_toString (TimeNum n) = num_toString n"
| "time_toString (TimeStr s) = s"

fun bitrate_truthy :: "Bitrate \<Rightarrow> bool" where
  "bitrate_truthy (BitrateNum n) = num_truthy n"
| "bitrate_truthy (BitrateStr s) = (s \<noteq> [])"

fun bitrate_toString :: "Bitrate \<Rightarrow> string" where
  "bitrate_toString (BitrateNum n) = num_toString n"
| "bitrate_toString (BitrateStr s) = s"

definition str_truthy :: "string \<Rightarrow> bool" where
  "str_truthy s = (s \<noteq> [])"

text \<open>
  A filter is a string, or an object with a name and options: a string, an array of
  strings, or a record. The record is given as an object literal is written: the
  list of its keys with their values, in the order in which they are inserted.
\<close>

datatype FilterOptions =
    OptString string
  | OptArray "string list"
  | OptRecord "(string \<times> jsval) list"

datatype Filter = FilterString string | FilterObject string FilterOptions

text \<open>
  The three shapes of \<open>VideoSettings.size\<close>: \<open>{width, height?}\<close>,
  \<open>{width: undefined, height}\<close> and \<open>{percent}\<close>.
\<close>

datatype Size =
    SizeWidth jsnum "jsnum option"
  | SizeHeight jsnum
  | SizePercent jsnum

text \<open>
  In-process streams are objects; the model names them by a number. \<open>PipeArgs\<close> is the
  optional second argument of \<open>pipe\<close>, an object with an optional \<open>end\<close> flag.
\<close>

type_synonym stream = nat

datatype PipeOptions = PipeOptions "bool option"

type_synonym PipeArgs = "PipeOptions option"

datatype Src = SrcPath string | SrcStream stream

datatype Dst = DstPath string | DstStream stream PipeArgs

text \<open>
  \<open>Options\<close>, each key optional: a key is absent from the object, or present with a
  value, which may be \<open>undefined\<close> (\<open>Present None\<close>). Reading a key that is absent
  gives \<open>undefined\<close> too.
\<close>

datatype 'a Key = Absent | Present "'a option"

fun read_key :: "'a Key \<Rightarrow> 'a option" where
  "read_key Absent = None"
| "read_key (Present v) = v"

record Options =
  timeout :: "jsnum Key"
  niceness :: "jsnum Key"
  priority :: "jsnum Key"
  stdoutLines :: "jsnum Key"

record InputSettings =
  in_src :: Src
  in_format :: "string option"
  in_fps :: "jsnum option"
  in_readrateNative :: "bool option"
  in_startTime :: "Time option"
  in_loop :: "bool option"
  in_extraOpts :: "string list option"

record AudioSettings =
  a_codec :: "string option"
  a_bitrate :: "Bitrate option"
  a_channels :: "jsnum option"
  a_freq :: "jsnum option"
  a_quality :: "jsnum option"
  a_filters :: "Filter list option"

record VideoSettings =
  v_codec :: "string option"
  v_bitrate :: "Bitrate option"
  v_filters :: "Filter list option"
  v_fps :: "jsnum option"
  v_frames :: "jsnum option"
  v_size :: "Size option"

record OutputSettings =
  out_dst :: Dst
  out_audio :: "AudioSettings option"
  out_video :: "VideoSettings option"
  out_format :: "string option"
  out_duration :: "Time option"
  out_startTime :: "Time option"
  out_extraOpts :: "string list option"

text \<open>The handle \<open>execa\<close> returns: the executable and the argument vector it was given.\<close>

record ResultPromise =
  executable :: string
  argv :: "string list"

text \<open>What the command has emitted to its listeners, oldest first.\<close>

datatype Notification =
    EvStart string
  | EvStderr string
  | EvEnd string string
  | EvError string string string

record FFmpegCommand =
  options :: Options
  inputs :: "InputSettings list"
  outputs :: "OutputSettings list"
  proc :: "ResultPromise option"
  stderrLines :: "string list"
  emitted :: "Notification list"

text \<open>\<open>throw new Error(message)\<close>.\<close>

datatype Error = Error string

section \<open>The constructor\<close>

text \<open>
  \<open>{ niceness: 0, stdoutLines: 100, ...options }\<close>: the spread copies every key that
  is present in the caller's object over the default, also one whose value is
  \<open>undefined\<close>; a key that is absent leaves the default. With no argument
  (\<open>None\<close>) nothing is copied.
\<close>

definition spread_over :: "'a \<Rightarrow> 'a Key \<Rightarrow> 'a Key" where
  "spread_over d given = (case given of Absent \<Rightarrow> Present (Some d) | Present v \<Rightarrow> Present v)"

definition new_FFmpegCommand :: "Options option \<Rightarrow> FFmpegCommand" where
  "new_FFmpegCommand opts =
     \<lparr> options =
         (case opts of
            None \<Rightarrow> \<lparr> timeout = Absent, niceness = Present (Some (js_int 0)),
                      priority = Absent, stdoutLines = Present (Some (js_int 100)) \<rparr>
          | Some given \<Rightarrow> \<lparr> timeout = timeout given,
                      niceness = spread_over (js_int 0) (niceness given),
                      priority = priority given,
                      stdoutLines = spread_over (js_int 100) (stdoutLines given) \<rparr>),
       inputs = [], outputs = [], proc = None, stderrLines = [], emitted = [] \<rparr>"

section \<open>The builder methods\<close>

text \<open>
  A method that returns \<open>this\<close> returns the command as it has become; a method that
  throws returns the error and leaves the command as it was. The methods \<open>output\<close>
  and \<open>size\<close> are \<open>output_call\<close> and \<open>size_call\<close> here, their names being taken.
\<close>

definition input :: "Src \<Rightarrow> FFmpegCommand \<Rightarrow> FFmpegCommand" where
  "input src c =
     c\<lparr> inputs := inputs c @
          [\<lparr> in_src = src, in_format = None, in_fps = None, in_readrateNative = None,
             in_startTime = None, in_loop = None, in_extraOpts = None \<rparr>] \<rparr>"

text \<open>
  \<open>_getLastInput\<close> returns the last input, an object the caller then writes to:
  \<open>withLastInput f\<close> is the command with \<open>f\<close> applied to that object.
\<close>

definition getLastInput :: "FFmpegCommand \<Rightarrow> Error + InputSettings" where
  "getLastInput c =
     (if inputs c = [] then Inl (Error ''No input added. Please add an input'')
      else Inr (last (inputs c)))"

definition withLastInput ::
    "(InputSettings \<Rightarrow> InputSettings) \<Rightarrow> FFmpegCommand \<Rightarrow> Error + FFmpegCommand" where
  "withLastInput f c =
     (case getLastInput c of
        Inl err \<Rightarrow> Inl err
      | Inr i \<Rightarrow> Inr (c\<lparr> inputs := butlast (inputs c) @ [f i] \<rparr>))"

definition inputFormat :: "string \<Rightarrow> FFmpegCommand \<Rightarrow> Error + FFmpegCommand" where
  "inputFormat fmt c = withLastInput (\<lambda>i. i\<lparr> in_format := Some fmt \<rparr>) c"

definition inputFPS :: "jsnum \<Rightarrow> FFmpegCommand \<Rightarrow> Error + FFmpegCommand" where
  "inputFPS n c = withLastInput (\<lambda>i. i\<lparr> in_fps := Some n \<rparr>) c"

definition native :: "FFmpegCommand \<Rightarrow> Error + FFmpegCommand" where
  "native c = withLastInput (\<lambda>i. i\<lparr> in_readrateNative := Some True \<rparr>) c"

definition seekInput :: "Time \<Rightarrow> FFmpegCommand \<Rightarrow> Error + FFmpegCommand" where
  "seekInput t c = withLastInput (\<lambda>i. i\<lparr> in_startTime := Some t \<rparr>) c"

definition loop :: "jsval \<Rightarrow> FFmpegCommand \<Rightarrow> Error + FFmpegCommand" where
  "loop len c =
     (if truthy len
      then Inl (Error ''Please specify loop output duration on the output instead'')
      else withLastInput (\<lambda>i. i\<lparr> in_loop := Some True \<rparr>) c)"

text \<open>
  \<open>parseArgsStringToArgv\<close> belongs to another package: the tokenizer is a parameter,
  \<open>tok\<close>.
\<close>

definition append_opts :: "string list option \<Rightarrow> string list \<Rightarrow> string list option" where
  "append_opts old new = Some ((case old of None \<Rightarrow> [] | Some e \<Rightarrow> e) @ new)"

definition inputOptions ::
    "(string \<Rightarrow> string list) \<Rightarrow> string OneOrMany list \<Rightarrow> FFmpegCommand
       \<Rightarrow> Error + FFmpegCommand" where
  "inputOptions tok opts c =
     withLastInput
       (\<lambda>i. i\<lparr> in_extraOpts := append_opts (in_extraOpts i) (concat (map tok (flat opts))) \<rparr>) c"

definition output_call :: "Dst \<Rightarrow> FFmpegCommand \<Rightarrow> FFmpegCommand" where
  "output_call dst c =
     c\<lparr> outputs := outputs c @
          [\<lparr> out_dst = dst,
             out_audio = Some \<lparr> a_codec = None, a_bitrate = None, a_channels = None,
                                a_freq = None, a_quality = None, a_filters = None \<rparr>,
             out_video = Some \<lparr> v_codec = None, v_bitrate = None, v_filters = None,
                                v_fps = None, v_frames = None, v_size = None \<rparr>,
             out_format = None, out_duration = None, out_startTime = None,
             out_extraOpts = None \<rparr>] \<rparr>"

definition getLastOutput :: "FFmpegCommand \<Rightarrow> Error + OutputSettings" where
  "getLastOutput c =
     (if outputs c = [] then Inl (Error ''No output added. Please add an output'')
      else Inr (last (outputs c)))"

definition setLastOutput :: "OutputSettings \<Rightarrow> FFmpegCommand \<Rightarrow> FFmpegCommand" where
  "setLastOutput out c = c\<lparr> outputs := butlast (outputs c) @ [out] \<rparr>"

definition withLastOutput ::
    "(OutputSettings \<Rightarrow> OutputSettings) \<Rightarrow> FFmpegCommand \<Rightarrow> Error + FFmpegCommand" where
  "withLastOutput f c =
     (case getLastOutput c of
        Inl err \<Rightarrow> Inl err
      | Inr out \<Rightarrow> Inr (setLastOutput (f out) c))"

definition outputOptions ::
    "(string \<Rightarrow> string list) \<Rightarrow> string OneOrMany list \<Rightarrow> FFmpegCommand
       \<Rightarrow> Error + FFmpegCommand" where
  "outputOptions tok opts c =
     withLastOutput
       (\<lambda>out. out\<lparr> out_extraOpts :=
                 append_opts (out_extraOpts out) (concat (map tok (flat opts))) \<rparr>) c"

definition noAudio :: "FFmpegCommand \<Rightarrow> Error + FFmpegCommand" where
  "noAudio c = withLastOutput (\<lambda>out. out\<lparr> out_audio := None \<rparr>) c"

text \<open>
  \<open>setAudioProps(key, value)\<close> assigns one property of the audio settings; the
  assignment is the function \<open>assign\<close>.
\<close>

definition setAudioProps ::
    "(AudioSettings \<Rightarrow> AudioSettings) \<Rightarrow> FFmpegCommand \<Rightarrow> Error + FFmpegCommand" where
  "setAudioProps assign c =
     (case getLastOutput c of
        Inl err \<Rightarrow> Inl err
      | Inr out \<Rightarrow>
          (case out_audio out of
             None \<Rightarrow> Inl (Error ''Audio disabled'')
           | Some a \<Rightarrow> Inr (setLastOutput (out\<lparr> out_audio := Some (assign a) \<rparr>) c)))"

definition audioCodec :: "string \<Rightarrow> FFmpegCommand \<Rightarrow> Error + FFmpegCommand" where
  "audioCodec codec c = setAudioProps (\<lambda>a. a\<lparr> a_codec := Some codec \<rparr>) c"

definition audioBitrate :: "Bitrate \<Rightarrow> FFmpegCommand \<Rightarrow> Error + FFmpegCommand" where
  "audioBitrate bitrate c = setAudioProps (\<lambda>a. a\<lparr> a_bitrate := Some bitrate \<rparr>) c"

definition audioChannels :: "jsnum \<Rightarrow> FFmpegCommand \<Rightarrow> Error + FFmpegCommand" where
  "audioChannels n c = setAudioProps (\<lambda>a. a\<lparr> a_channels := Some n \<rparr>) c"

definition audioFrequency :: "jsnum \<Rightarrow> FFmpegCommand \<Rightarrow> Error + FFmpegCommand" where
  "audioFrequency freq c = setAudioProps (\<lambda>a. a\<lparr> a_freq := Some freq \<rparr>) c"

definition audioQuality :: "jsnum \<Rightarrow> FFmpegCommand \<Rightarrow> Error + FFmpegCommand" where
  "audioQuality q c = setAudioProps (\<lambda>a. a\<lparr> a_quality := Some q \<rparr>) c"

definition append_filters :: "Filter list option \<Rightarrow> Filter list \<Rightarrow> Filter list option" where
  "append_filters old new = Some ((case old of None \<Rightarrow> [] | Some fs \<Rightarrow> fs) @ new)"

definition audioFilters :: "Filter OneOrMany list \<Rightarrow> FFmpegCommand \<Rightarrow> Error + FFmpegCommand" where
  "audioFilters filters c =
     (case getLastOutput c of
        Inl err \<Rightarrow> Inl err
      | Inr out \<Rightarrow>
          (case out_audio out of
             None \<Rightarrow> Inl (Error ''Audio disabled'')
           | Some a \<Rightarrow>
               Inr (setLastOutput
                     (out\<lparr> out_audio :=
                        Some (a\<lparr> a_filters := append_filters (a_filters a) (flat filters) \<rparr>) \<rparr>)
                     c)))"

definition noVideo :: "FFmpegCommand \<Rightarrow> Error + FFmpegCommand" where
  "noVideo c = withLastOutput (\<lambda>out. out\<lparr> out_video := None \<rparr>) c"

definition setVideoProps ::
    "(VideoSettings \<Rightarrow> VideoSettings) \<Rightarrow> FFmpegCommand \<Rightarrow> Error + FFmpegCommand" where
  "setVideoProps assign c =
     (case getLastOutput c of
        Inl err \<Rightarrow> Inl err
      | Inr out \<Rightarrow>
          (case out_video out of
             None \<Rightarrow> Inl (Error ''Video disabled'')
           | Some v \<Rightarrow> Inr (setLastOutput (out\<lparr> out_video := Some (assign v) \<rparr>) c)))"

definition videoCodec :: "string \<Rightarrow> FFmpegCommand \<Rightarrow> Error + FFmpegCommand" where
  "videoCodec codec c = setVideoProps (\<lambda>v. v\<lparr> v_codec := Some codec \<rparr>) c"

definition videoBitrate :: "Bitrate \<Rightarrow> FFmpegCommand \<Rightarrow> Error + FFmpegCommand" where
  "videoBitrate bitrate c = setVideoProps (\<lambda>v. v\<lparr> v_bitrate := Some bitrate \<rparr>) c"

definition fps :: "jsnum \<Rightarrow> FFmpegCommand \<Rightarrow> Error + FFmpegCommand" where
  "fps n c = setVideoProps (\<lambda>v. v\<lparr> v_fps := Some n \<rparr>) c"

definition frames :: "jsnum \<Rightarrow> FFmpegCommand \<Rightarrow> Error + FFmpegCommand" where
  "frames n c = setVideoProps (\<lambda>v. v\<lparr> v_frames := Some n \<rparr>) c"

text \<open>
  The \<open>size\<close> method, in two parts: what it reads from the string, and the
  assignment. The first part is everything that precedes \<open>setVideoProps\<close> in the
  source, so each of its errors is raised whatever the command holds.
  \<^verbatim>\<open>
    if (size.endsWith("%")) {
      const percentStr = size.substring(0, size.length - 1);
      const percent = Number.parseFloat(percentStr);
      if (!Number.isFinite(percent) || percent <= 0)
        throw new Error(`Invalid size: ${size}`);
      this.setVideoProps("size", { percent });
      return this;
    }
    const [widthStr, heightStr] = size.split("x");
    if (!widthStr || !heightStr)
      throw new Error(`Invalid size: ${size}`);
    const width = widthStr === "?" ? undefined : Number.parseInt(widthStr);
    const height = heightStr === "?" ? undefined : Number.parseInt(heightStr);
    if (typeof width === "number" && (Number.isNaN(width) || width <= 0))
      throw new Error(`Invalid width: ${widthStr}`)
    if (typeof height === "number" && (Number.isNaN(height) || height <= 0))
      throw new Error(`Invalid height: ${heightStr}`)
    if (width)
      this.setVideoProps("size", { width, height });
    else if (height)
      this.setVideoProps("size", { width: undefined, height });
    else
      throw new Error("Width and height can't both be unknown");
  \<close>
\<close>

definition parse_dimension :: "string \<Rightarrow> jsnum option" where
  "parse_dimension str = (if str = ''?'' then None else Some (js_parseInt str))"

definition bad_dimension :: "jsnum option \<Rightarrow> bool" where
  "bad_dimension d = (case d of None \<Rightarrow> False | Some n \<Rightarrow> num_isNaN n \<or> num_le_zero n)"

text \<open>The last three branches: \<open>if (width) \<dots> else if (height) \<dots> else throw\<close>.\<close>

definition size_of_height :: "jsnum option \<Rightarrow> Error + Size" where
  "size_of_height height =
     (case height of
        Some h \<Rightarrow>
          if num_truthy h then Inr (SizeHeight h)
          else Inl (Error (''Width and height can'' @ [CHR 0x27] @ ''t both be unknown''))
      | None \<Rightarrow> Inl (Error (''Width and height can'' @ [CHR 0x27] @ ''t both be unknown'')))"

definition size_of_width :: "jsnum option \<Rightarrow> jsnum option \<Rightarrow> Error + Size" where
  "size_of_width width height =
     (case width of
        Some w \<Rightarrow> if num_truthy w then Inr (SizeWidth w height) else size_of_height height
      | None \<Rightarrow> size_of_height height)"

definition size_of_dimensions :: "string \<Rightarrow> string \<Rightarrow> Error + Size" where
  "size_of_dimensions widthStr heightStr =
     (let width = parse_dimension widthStr;
          height = parse_dimension heightStr
      in if bad_dimension width then Inl (Error (''Invalid width: '' @ widthStr))
         else if bad_dimension height then Inl (Error (''Invalid height: '' @ heightStr))
         else size_of_width width height)"

definition parse_size :: "string \<Rightarrow> Error + Size" where
  "parse_size size_str =
     (if ends_with ''%'' size_str then
        (let percent = js_parseFloat (take (length size_str - 1) size_str)
         in if \<not> num_isFinite percent \<or> num_le_zero percent
            then Inl (Error (''Invalid size: '' @ size_str))
            else Inr (SizePercent percent))
      else
        (let parts = js_split CHR ''x'' size_str
         in case (at_index parts 0, at_index parts 1) of
              (Some widthStr, Some heightStr) \<Rightarrow>
                if \<not> str_truthy widthStr \<or> \<not> str_truthy heightStr
                then Inl (Error (''Invalid size: '' @ size_str))
                else size_of_dimensions widthStr heightStr
            | _ \<Rightarrow> Inl (Error (''Invalid size: '' @ size_str))))"

definition size_call :: "string \<Rightarrow> FFmpegCommand \<Rightarrow> Error + FFmpegCommand" where
  "size_call size_str c =
     (case parse_size size_str of
        Inl err \<Rightarrow> Inl err
      | Inr sz \<Rightarrow> setVideoProps (\<lambda>v. v\<lparr> v_size := Some sz \<rparr>) c)"

definition videoFilters :: "Filter OneOrMany list \<Rightarrow> FFmpegCommand \<Rightarrow> Error + FFmpegCommand" where
  "videoFilters filters c =
     (case getLastOutput c of
        Inl err \<Rightarrow> Inl err
      | Inr out \<Rightarrow>
          (case out_video out of
             None \<Rightarrow> Inl (Error ''Video disabled'')
           | Some v \<Rightarrow>
               Inr (setLastOutput
                     (out\<lparr> out_video :=
                        Some (v\<lparr> v_filters := append_filters (v_filters v) (flat filters) \<rparr>) \<rparr>)
                     c)))"

definition duration :: "Time \<Rightarrow> FFmpegCommand \<Rightarrow> Error + FFmpegCommand" where
  "duration dur c = withLastOutput (\<lambda>out. out\<lparr> out_duration := Some dur \<rparr>) c"

definition seek :: "Time \<Rightarrow> FFmpegCommand \<Rightarrow> Error + FFmpegCommand" where
  "seek start c = withLastOutput (\<lambda>out. out\<lparr> out_startTime := Some start \<rparr>) c"

definition format :: "string \<Rightarrow> FFmpegCommand \<Rightarrow> Error + FFmpegCommand" where
  "format fmt c = withLastOutput (\<lambda>out. out\<lparr> out_format := Some fmt \<rparr>) c"

text \<open>A call of a builder method, and a sequence of calls that stops at the first error.\<close>

datatype Call =
    Input Src
  | InputFormat string
  | InputFPS jsnum
  | Native
  | SeekInput Time
  | Loop jsval
  | InputOptions "string OneOrMany list"
  | Output Dst
  | OutputOptions "string OneOrMany list"
  | NoAudio
  | AudioCodec string
  | AudioBitrate Bitrate
  | AudioChannels jsnum
  | AudioFrequency jsnum
  | AudioQuality jsnum
  | AudioFilters "Filter OneOrMany list"
  | NoVideo
  | VideoCodec string
  | VideoBitrate Bitrate
  | Fps jsnum
  | Frames jsnum
  | SizeOf string
  | VideoFilters "Filter OneOrMany list"
  | Duration Time
  | Seek Time
  | Format string

fun call :: "(string \<Rightarrow> string list) \<Rightarrow> Call \<Rightarrow> FFmpegCommand \<Rightarrow> Error + FFmpegCommand" where
  "call tok (Input src) c = Inr (input src c)"
| "call tok (InputFormat fmt) c = inputFormat fmt c"
| "call tok (InputFPS n) c = inputFPS n c"
| "call tok Native c = native c"
| "call tok (SeekInput t) c = seekInput t c"
| "call tok (Loop len) c = loop len c"
| "call tok (InputOptions opts) c = inputOptions tok opts c"
| "call tok (Output dst) c = Inr (output_call dst c)"
| "call tok (OutputOptions opts) c = outputOptions tok opts c"
| "call tok NoAudio c = noAudio c"
| "call tok (AudioCodec codec) c = audioCodec codec c"
| "call tok (AudioBitrate b) c = audioBitrate b c"
| "call tok (AudioChannels n) c = audioChannels n c"
| "call tok (AudioFrequency n) c = audioFrequency n c"
| "call tok (AudioQuality n) c = audioQuality n c"
| "call tok (AudioFilters fs) c = audioFilters fs c"
| "call tok NoVideo c = noVideo c"
| "call tok (VideoCodec codec) c = videoCodec codec c"
| "call tok (VideoBitrate b) c = videoBitrate b c"
| "call tok (Fps n) c = fps n c"
| "call tok (Frames n) c = frames n c"
| "call tok (SizeOf s) c = size_call s c"
| "call tok (VideoFilters fs) c = videoFilters fs c"
| "call tok (Duration t) c = duration t c"
| "call tok (Seek t) c = seek t c"
| "call tok (Format fmt) c = format fmt c"

fun calls ::
    "(string \<Rightarrow> string list) \<Rightarrow> Call list \<Rightarrow> FFmpegCommand \<Rightarrow> Error + FFmpegCommand" where
  "calls tok [] c = Inr c"
| "calls tok (x # xs) c =
     (case call tok x c of Inl err \<Rightarrow> Inl err | Inr c' \<Rightarrow> calls tok xs c')"

text \<open>The calls that set a property of the audio, and of the video, of an output.\<close>

fun audio_setting :: "Call \<Rightarrow> bool" where
  "audio_setting (AudioCodec codec) = True"
| "audio_setting (AudioBitrate b) = True"
| "audio_setting (AudioChannels n) = True"
| "audio_setting (AudioFrequency n) = True"
| "audio_setting (AudioQuality n) = True"
| "audio_setting (AudioFilters fs) = True"
| "audio_setting x = False"

fun video_setting :: "Call \<Rightarrow> bool" where
  "video_setting (VideoCodec codec) = True"
| "video_setting (VideoBitrate b) = True"
| "video_setting (Fps n) = True"
| "video_setting (Frames n) = True"
| "video_setting (SizeOf s) = True"
| "video_setting (VideoFilters fs) = True"
| "video_setting x = False"

fun is_Output :: "Call \<Rightarrow> bool" where
  "is_Output (Output dst) = True"
| "is_Output x = False"

section \<open>The diagnostic-line buffer\<close>

text \<open>
  \<^verbatim>\<open>
  private processStderr(line: string) {
    this.emit("stderr", line);
    this._stderrLines.push(line);
    if (this._options.stdoutLines && this._stderrLines.length > this._options.stdoutLines)
      this._stderrLines = this._stderrLines.slice(this._stderrLines.length - this._options.stdoutLines);
  }
  \<close>
  The first conjunct of the guard is the truthiness of the configured maximum:
  \<open>undefined\<close>, \<open>0\<close> and \<open>NaN\<close> are falsy. The maximum is a number, any double.
\<close>

definition processStderr :: "string \<Rightarrow> FFmpegCommand \<Rightarrow> FFmpegCommand" where
  "processStderr line c =
     (let pushed = stderrLines c @ [line];
          len = int (length pushed);
          kept = (case read_key (stdoutLines (options c)) of
                    None \<Rightarrow> pushed
                  | Some m \<Rightarrow>
                      if num_truthy m \<and> length_gt len m
                      then js_slice (length_minus len m) pushed
                      else pushed)
      in c\<lparr> emitted := emitted c @ [EvStderr line], stderrLines := kept \<rparr>)"

text \<open>The line-consumption loop of \<open>run\<close>: each line of stderr, in order.\<close>

fun feed :: "string list \<Rightarrow> FFmpegCommand \<Rightarrow> FFmpegCommand" where
  "feed [] c = c"
| "feed (line # rest) c = feed rest (processStderr line c)"

section \<open>The stream bridge\<close>

text \<open>
  The callback a \<open>NamedPipeStream\<close> gives to \<open>net.createServer\<close>: \<open>StreamInput\<close>
  pipes the stream into the socket, \<open>StreamOutput\<close> pipes the socket into the stream
  with the caller's pipe options. A \<open>Pipe\<close> records one such call of \<open>pipe\<close>.
\<close>

type_synonym socket = nat

datatype OnSocket = FromStream | IntoStream PipeArgs

datatype Pipe = PipeStreamToSocket stream socket | PipeSocketToStream socket stream PipeArgs

fun on_socket :: "OnSocket \<Rightarrow> stream \<Rightarrow> socket \<Rightarrow> Pipe" where
  "on_socket FromStream st sock = PipeStreamToSocket st sock"
| "on_socket (IntoStream pipeArgs) st sock = PipeSocketToStream sock st pipeArgs"

text \<open>
  A \<open>NamedPipeStream\<close> with its server: whether the server listens, and the pipes
  its connection listener has set up, oldest first.
\<close>

record NamedPipeStream =
  socketPath :: string
  url :: string
  bridged :: stream
  onSocket :: OnSocket
  listening :: bool
  pipes :: "Pipe list"

text \<open>
  What lies outside the command: the platform, the identifiers \<open>randomUUID\<close> returns
  (the \<open>n\<close>-th call returns \<open>randomUUIDs n\<close>) and how many were drawn, the path of the
  executable, and the bridges created so far.
\<close>

record World =
  platform :: string
  randomUUIDs :: "nat \<Rightarrow> string"
  drawn :: nat
  ffmpegPath :: string
  bridges :: "NamedPipeStream list"

definition backslash :: char where
  "backslash = CHR 0x5C"

definition pipe_path :: "string \<Rightarrow> string \<Rightarrow> string" where
  "pipe_path plat uuid =
     (if plat = ''win32''
      then [backslash, backslash] @ ''.'' @ [backslash] @ ''pipe'' @ [backslash] @ uuid @ ''.sock''
      else ''/tmp/'' @ uuid @ ''.sock'')"

definition pipe_url :: "string \<Rightarrow> string \<Rightarrow> string" where
  "pipe_url plat uuid =
     (if plat = ''win32'' then pipe_path plat uuid else ''unix:'' @ pipe_path plat uuid)"

text \<open>
  The constructor: a fresh identifier, the address for the platform, a server with
  the callback as its connection listener, listening on the path; the stream's
  \<open>close\<close> event is handled in \<open>bridge_step\<close>. The removal of a stale file at the
  path touches nothing kept here.
\<close>

definition new_NamedPipeStream ::
    "stream \<Rightarrow> OnSocket \<Rightarrow> World \<Rightarrow> NamedPipeStream \<times> World" where
  "new_NamedPipeStream st cb w =
     (let uuid = randomUUIDs w (drawn w);
          np = \<lparr> socketPath = pipe_path (platform w) uuid,
                 url = pipe_url (platform w) uuid,
                 bridged = st, onSocket = cb, listening = True, pipes = [] \<rparr>
      in (np, w\<lparr> drawn := Suc (drawn w), bridges := bridges w @ [np] \<rparr>))"

definition StreamInput :: "stream \<Rightarrow> World \<Rightarrow> NamedPipeStream \<times> World" where
  "StreamInput st w = new_NamedPipeStream st FromStream w"

definition StreamOutput :: "stream \<Rightarrow> PipeArgs \<Rightarrow> World \<Rightarrow> NamedPipeStream \<times> World" where
  "StreamOutput st pipeArgs w = new_NamedPipeStream st (IntoStream pipeArgs) w"

text \<open>
  \<open>net.Server.close()\<close> stops the server from accepting connections and keeps the
  connections it has; called without a callback, as here, it does not throw, also
  on a server that is closed already.
\<close>

definition server_close :: "NamedPipeStream \<Rightarrow> NamedPipeStream" where
  "server_close np = np\<lparr> listening := False \<rparr>"

definition close :: "NamedPipeStream \<Rightarrow> NamedPipeStream" where
  "close np = server_close np"

text \<open>
  What can happen to a bridge once it is built: a peer connects to the address, the
  bridged stream emits \<open>close\<close>, or \<open>close()\<close> is called. A listening server hands
  every connection to its connection listener; nothing in the source ends the
  listening but the two closes. A server that does not listen has no connection to
  hand over.
\<close>

datatype BridgeEvent = Connect socket | StreamClosed | CloseCalled

fun bridge_step :: "NamedPipeStream \<Rightarrow> BridgeEvent \<Rightarrow> NamedPipeStream" where
  "bridge_step np (Connect sock) =
     (if listening np
      then np\<lparr> pipes := pipes np @ [on_socket (onSocket np) (bridged np) sock] \<rparr>
      else np)"
| "bridge_step np StreamClosed = server_close np"
| "bridge_step np CloseCalled = close np"

definition bridge_run :: "NamedPipeStream \<Rightarrow> BridgeEvent list \<Rightarrow> NamedPipeStream" where
  "bridge_run np evs = foldl bridge_step np evs"

section \<open>Lowering to the argument vector\<close>

text \<open>
  \<^verbatim>\<open>
  function filtersToString(filters: Filter[]) {
    return filters.map(el => {
      if (typeof el === "string") {
        return el;
      }
      else {
        const opts = typeof el.options === "string" ? el.options
          : Array.isArray(el.options) ? el.options.join(":")
            : Object.entries(el.options).map(([k, v]) => `${k}=${v}`).join(":");
        return `${el.filter}=${opts}`
      }
    }).join(",");
  }
  \<close>
\<close>

text \<open>
  The own properties of the object a literal denotes, in the order of their
  creation: a key that is written again keeps its place and takes the new value.
\<close>

fun define_property :: "string \<times> jsval \<Rightarrow> (string \<times> jsval) list \<Rightarrow> (string \<times> jsval) list" where
  "define_property kv [] = [kv]"
| "define_property kv (p # ps) =
     (if fst p = fst kv then kv # ps else p # define_property kv ps)"

definition own_properties :: "(string \<times> jsval) list \<Rightarrow> (string \<times> jsval) list" where
  "own_properties kvs = foldl (\<lambda>obj kv. define_property kv obj) [] kvs"

text \<open>
  \<open>Object.entries\<close> lists the own properties in the order of the object's own keys:
  first the keys that are array indices (the decimal numeral, without leading
  zeros, of an integer from \<open>0\<close> to \<open>2 ^ 32 - 2\<close>) in ascending numeric order, then
  the other keys in the order of their creation.
\<close>

definition is_array_index :: "string \<Rightarrow> bool" where
  "is_array_index k =
     (k \<noteq> [] \<and> list_all is_digit k \<and> (k = ''0'' \<or> hd k \<noteq> CHR ''0'')
      \<and> digits_val 10 k < 2 ^ 32 - 1)"

definition object_entries :: "(string \<times> jsval) list \<Rightarrow> (string \<times> jsval) list" where
  "object_entries props =
     sort_key (\<lambda>kv. digits_val 10 (fst kv)) (filter (\<lambda>kv. is_array_index (fst kv)) props)
     @ filter (\<lambda>kv. \<not> is_array_index (fst kv)) props"

text \<open>\<open>([k, v]) => `${k}=${v}`\<close>.\<close>

definition key_value :: "string \<times> jsval \<Rightarrow> string" where
  "key_value kv = fst kv @ ''='' @ js_toString (snd kv)"

fun options_toString :: "FilterOptions \<Rightarrow> string" where
  "options_toString (OptString s) = s"
| "options_toString (OptArray xs) = js_join '':'' xs"
| "options_toString (OptRecord kvs) =
     js_join '':'' (map key_value (object_entries (own_properties kvs)))"

fun filter_toString :: "Filter \<Rightarrow> string" where
  "filter_toString (FilterString s) = s"
| "filter_toString (FilterObject name opts) = name @ ''='' @ options_toString opts"

definition filtersToString :: "Filter list \<Rightarrow> string" where
  "filtersToString filters = js_join '','' (map filter_toString filters)"

text \<open>
  \<open>if (v) args.push(...tokens)\<close>, for an optional setting \<open>v\<close>: \<open>is_truthy\<close> is the
  truthiness of a value of its type, and \<open>undefined\<close> is falsy.
\<close>

definition push_if ::
    "('a \<Rightarrow> bool) \<Rightarrow> 'a option \<Rightarrow> ('a \<Rightarrow> string list) \<Rightarrow> string list \<Rightarrow> string list" where
  "push_if is_truthy v tokens args =
     (case v of
        None \<Rightarrow> args
      | Some x \<Rightarrow> if is_truthy x then args @ tokens x else args)"

text \<open>
  The body of the first loop of \<open>run\<close>, on the world and the arguments pushed so far.
  \<^verbatim>\<open>
      const { extraOpts, format, fps, readrateNative, startTime, loop, src } = input;
      if (extraOpts)
        args.push(...extraOpts);
      if (format)
        args.push("-f", format);
      if (fps)
        args.push("-r", fps.toString());
      if (readrateNative)
        args.push("-re");
      if (startTime)
        args.push("-ss", startTime.toString());
      if (loop)
        args.push("-loop", "-1");
      if (typeof src === "string") {
        args.push("-i", src);
      }
      else {
        const stream = StreamInput(src);
        args.push("-i", stream.url);
      }
  \<close>
  An array is truthy, also an empty one. The pushes are nested, the first one
  innermost.
\<close>

definition push_src :: "Src \<Rightarrow> World \<times> string list \<Rightarrow> World \<times> string list" where
  "push_src src st =
     (case src of
        SrcPath path \<Rightarrow> (fst st, snd st @ [''-i'', path])
      | SrcStream s \<Rightarrow>
          (snd (StreamInput s (fst st)), snd st @ [''-i'', url (fst (StreamInput s (fst st)))]))"

definition lower_input :: "World \<times> string list \<Rightarrow> InputSettings \<Rightarrow> World \<times> string list" where
  "lower_input st i =
     push_src (in_src i)
       (fst st,
        push_if (\<lambda>b. b) (in_loop i) (\<lambda>b. [''-loop'', ''-1''])
          (push_if time_truthy (in_startTime i) (\<lambda>t. [''-ss'', time_toString t])
            (push_if (\<lambda>b. b) (in_readrateNative i) (\<lambda>b. [''-re''])
              (push_if num_truthy (in_fps i) (\<lambda>n. [''-r'', num_toString n])
                (push_if str_truthy (in_format i) (\<lambda>f. [''-f'', f])
                  (push_if (\<lambda>e. True) (in_extraOpts i) (\<lambda>e. e) (snd st)))))))"

text \<open>
  The audio block.
  \<^verbatim>\<open>
      if (!audio) {
        args.push("-an");
      }
      else {
        const { codec, bitrate, channels, freq, quality, filters } = audio;
        if (codec)
          args.push("-c:a", codec);
        if (bitrate)
          args.push("-b:a", bitrate.toString());
        if (channels)
          args.push("-ac", channels.toString());
        if (freq)
          args.push("-ar", freq.toString());
        if (quality)
          args.push("-q:a", quality.toString());
        if (filters)
          args.push("-af", filtersToString(filters));
      }
  \<close>
\<close>

definition push_audio :: "AudioSettings option \<Rightarrow> string list \<Rightarrow> string list" where
  "push_audio audio args =
     (case audio of
        None \<Rightarrow> args @ [''-an'']
      | Some a \<Rightarrow>
          push_if (\<lambda>fs. True) (a_filters a) (\<lambda>fs. [''-af'', filtersToString fs])
            (push_if num_truthy (a_quality a) (\<lambda>n. [''-q:a'', num_toString n])
              (push_if num_truthy (a_freq a) (\<lambda>n. [''-ar'', num_toString n])
                (push_if num_truthy (a_channels a) (\<lambda>n. [''-ac'', num_toString n])
                  (push_if bitrate_truthy (a_bitrate a) (\<lambda>b. [''-b:a'', bitrate_toString b])
                    (push_if str_truthy (a_codec a) (\<lambda>c. [''-c:a'', c]) args))))))"

text \<open>
  The scale filter a size is lowered to.
  \<^verbatim>\<open>
          if ("percent" in size) {
            const factor = size.percent / 100;
            resolvedFilters.push({
              filter: "scale",
              options: {
                w: `trunc(iw*${factor}/2)*2`,
                h: `trunc(ih*${factor}/2)*2`,
              }
            })
          }
          else {
            const { width, height } = size;
            resolvedFilters.push({
              filter: "scale",
              options: {
                w: width ? width : "-2",
                h: height ? height : "-2"
              }
            })
          }
  \<close>
\<close>

definition dimension_or_auto :: "jsnum option \<Rightarrow> jsval" where
  "dimension_or_auto d =
     (case d of
        None \<Rightarrow> VStr ''-2''
      | Some n \<Rightarrow> if num_truthy n then VNum n else VStr ''-2'')"

fun scale_filter :: "Size \<Rightarrow> Filter" where
  "scale_filter (SizePercent percent) =
     FilterObject ''scale''
       (OptRecord
         [(''w'', VStr (''trunc(iw*'' @ num_toString (num_div percent 100) @ ''/2)*2'')),
          (''h'', VStr (''trunc(ih*'' @ num_toString (num_div percent 100) @ ''/2)*2''))])"
| "scale_filter (SizeWidth width height) =
     FilterObject ''scale''
       (OptRecord [(''w'', dimension_or_auto (Some width)), (''h'', dimension_or_auto height)])"
| "scale_filter (SizeHeight height) =
     FilterObject ''scale''
       (OptRecord [(''w'', dimension_or_auto None), (''h'', dimension_or_auto (Some height))])"

text \<open>
  \<open>let resolvedFilters = [...(filters ?? [])]\<close>, then the scale filter pushed when a
  size is set.
\<close>

definition resolvedFilters :: "VideoSettings \<Rightarrow> Filter list" where
  "resolvedFilters v =
     (case v_filters v of None \<Rightarrow> [] | Some fs \<Rightarrow> fs)
     @ (case v_size v of None \<Rightarrow> [] | Some sz \<Rightarrow> [scale_filter sz])"

text \<open>
  The video block.
  \<^verbatim>\<open>
      if (!video) {
        args.push("-vn");
      }
      else {
        const { codec, bitrate, filters, fps, frames, size } = video;
        if (codec)
          args.push("-c:v", codec);
        if (bitrate)
          args.push("-b:v", bitrate.toString());
        if (fps)
          args.push("-r", fps.toString());
        if (frames)
          args.push("-frames:v", frames.toString());
        let resolvedFilters = [...(filters ?? [])];
        if (size) { ... }
        if (resolvedFilters.length) {
          args.push("-vf", filtersToString(resolvedFilters));
        }
      }
  \<close>
\<close>

definition push_video :: "VideoSettings option \<Rightarrow> string list \<Rightarrow> string list" where
  "push_video video args =
     (case video of
        None \<Rightarrow> args @ [''-vn'']
      | Some v \<Rightarrow>
          (let args' =
                 push_if num_truthy (v_frames v) (\<lambda>n. [''-frames:v'', num_toString n])
                   (push_if num_truthy (v_fps v) (\<lambda>n. [''-r'', num_toString n])
                     (push_if bitrate_truthy (v_bitrate v) (\<lambda>b. [''-b:v'', bitrate_toString b])
                       (push_if str_truthy (v_codec v) (\<lambda>c. [''-c:v'', c]) args)))
           in if resolvedFilters v \<noteq> []
              then args' @ [''-vf'', filtersToString (resolvedFilters v)]
              else args'))"

text \<open>
  The body of the second loop of \<open>run\<close>.
  \<^verbatim>\<open>
      const { dst, format, startTime, duration, extraOpts, audio, video } = output;
      if (format)
        args.push("-f", format);
      if (startTime)
        args.push("-ss", startTime.toString());
      if (duration)
        args.push("-t", duration.toString());
      ... the audio block, the video block ...
      if (extraOpts)
        args.push(...extraOpts);
      if (typeof dst === "string") {
        args.push(dst);
      }
      else {
        const stream = StreamOutput(dst.stream, dst.pipeArgs);
        args.push(stream.url);
      }
  \<close>
\<close>

definition push_dst :: "Dst \<Rightarrow> World \<times> string list \<Rightarrow> World \<times> string list" where
  "push_dst dst st =
     (case dst of
        DstPath path \<Rightarrow> (fst st, snd st @ [path])
      | DstStream s pipeArgs \<Rightarrow>
          (snd (StreamOutput s pipeArgs (fst st)),
           snd st @ [url (fst (StreamOutput s pipeArgs (fst st)))]))"

definition lower_output :: "World \<times> string list \<Rightarrow> OutputSettings \<Rightarrow> World \<times> string list" where
  "lower_output st out =
     push_dst (out_dst out)
       (fst st,
        push_if (\<lambda>e. True) (out_extraOpts out) (\<lambda>e. e)
          (push_video (out_video out)
            (push_audio (out_audio out)
              (push_if time_truthy (out_duration out) (\<lambda>t. [''-t'', time_toString t])
                (push_if time_truthy (out_startTime out) (\<lambda>t. [''-ss'', time_toString t])
                  (push_if str_truthy (out_format out) (\<lambda>f. [''-f'', f]) (snd st)))))))"

section \<open>\<open>run\<close>\<close>

text \<open>
  \<^verbatim>\<open>
    if (this._proc)
      throw new Error("This instance is already run");
    if (!this._inputs.length)
      throw new Error("No inputs specified");
    if (!this._outputs.length)
      throw new Error("No outputs specified");
    let args: string[] = [];
    for (const input of this._inputs) { ... }
    for (const output of this._outputs) { ... }
    const proc = execa(ffmpegPath, args, { ... });
    this._proc = proc;
    ...
    return proc;
  \<close>
  \<open>execa\<close> is taken to return its handle. \<open>run\<close> yields the handle, the command
  and the world as they have become.
\<close>

definition run :: "World \<Rightarrow> FFmpegCommand \<Rightarrow> Error + (ResultPromise \<times> FFmpegCommand \<times> World)" where
  "run w c =
     (if proc c \<noteq> None then Inl (Error ''This instance is already run'')
      else if inputs c = [] then Inl (Error ''No inputs specified'')
      else if outputs c = [] then Inl (Error ''No outputs specified'')
      else
        let st = foldl lower_output (foldl lower_input (w, []) (inputs c)) (outputs c);
            p = \<lparr> executable = ffmpegPath w, argv = snd st \<rparr>
        in Inr (p, c\<lparr> proc := Some p \<rparr>, fst st))"

text \<open>
  What follows a \<open>run\<close>, each on the event loop: the process is spawned, a line of
  its stderr arrives, and it settles, with success or with an error.
  \<^verbatim>\<open>
    proc.once("spawn", () => this.emit("start", proc.spawnargs.join(" ")));
    (async () => {
      for await (const line of proc.iterable({ from: "stderr" }))
        this.processStderr(line);
    })();
    proc
      .then(() => { this.emit("end", "", this._stderrLines.join("\n")) })
      .catch((err) => { this.emit("error", err, "", this._stderrLines.join("\n")) });
  \<close>
\<close>

definition on_spawn :: "FFmpegCommand \<Rightarrow> FFmpegCommand" where
  "on_spawn c =
     (case proc c of
        None \<Rightarrow> c
      | Some p \<Rightarrow> c\<lparr> emitted := emitted c @ [EvStart (js_join '' '' (executable p # argv p))] \<rparr>)"

definition on_end :: "FFmpegCommand \<Rightarrow> FFmpegCommand" where
  "on_end c = c\<lparr> emitted := emitted c @ [EvEnd [] (js_join [CHR 0x0A] (stderrLines c))] \<rparr>"

definition on_error :: "string \<Rightarrow> FFmpegCommand \<Rightarrow> FFmpegCommand" where
  "on_error err c =
     c\<lparr> emitted := emitted c @ [EvError err [] (js_join [CHR 0x0A] (stderrLines c))] \<rparr>"

text \<open>Anything that may happen to a command between two calls of \<open>run\<close>.\<close>

datatype Activity =
    Called Call
  | Spawned
  | StderrLine string
  | Ended
  | Failed string

fun activity ::
    "(string \<Rightarrow> string list) \<Rightarrow> Activity \<Rightarrow> FFmpegCommand \<Rightarrow> FFmpegCommand" where
  "activity tok (Called x) c = (case call tok x c of Inl err \<Rightarrow> c | Inr c' \<Rightarrow> c')"
| "activity tok Spawned c = on_spawn c"
| "activity tok (StderrLine line) c = processStderr line c"
| "activity tok Ended c = on_end c"
| "activity tok (Failed err) c = on_error err c"

definition activities ::
    "(string \<Rightarrow> string list) \<Rightarrow> Activity list \<Rightarrow> FFmpegCommand \<Rightarrow> FFmpegCommand" where
  "activities tok acts c = foldl (\<lambda>c' a. activity tok a c') c acts"

section \<open>The argument vector, as the specification words it\<close>

text \<open>
  Each flag is a list of tokens, empty when the flag is not emitted; a group is the
  concatenation of its flags in the order the specification gives, followed by the
  source or the destination.
\<close>

definition flag :: "('a \<Rightarrow> bool) \<Rightarrow> 'a option \<Rightarrow> ('a \<Rightarrow> string list) \<Rightarrow> string list" where
  "flag is_truthy v tokens =
     (case v of None \<Rightarrow> [] | Some x \<Rightarrow> if is_truthy x then tokens x else [])"

definition audio_block :: "AudioSettings option \<Rightarrow> string list" where
  "audio_block audio =
     (case audio of
        None \<Rightarrow> [''-an'']
      | Some a \<Rightarrow>
          flag str_truthy (a_codec a) (\<lambda>c. [''-c:a'', c])
          @ flag bitrate_truthy (a_bitrate a) (\<lambda>b. [''-b:a'', bitrate_toString b])
          @ flag num_truthy (a_channels a) (\<lambda>n. [''-ac'', num_toString n])
          @ flag num_truthy (a_freq a) (\<lambda>n. [''-ar'', num_toString n])
          @ flag num_truthy (a_quality a) (\<lambda>n. [''-q:a'', num_toString n])
          @ flag (\<lambda>fs. True) (a_filters a) (\<lambda>fs. [''-af'', filtersToString fs]))"

definition video_block :: "VideoSettings option \<Rightarrow> string list" where
  "video_block video =
     (case video of
        None \<Rightarrow> [''-vn'']
      | Some v \<Rightarrow>
          flag str_truthy (v_codec v) (\<lambda>c. [''-c:v'', c])
          @ flag bitrate_truthy (v_bitrate v) (\<lambda>b. [''-b:v'', bitrate_toString b])
          @ flag num_truthy (v_fps v) (\<lambda>n. [''-r'', num_toString n])
          @ flag num_truthy (v_frames v) (\<lambda>n. [''-frames:v'', num_toString n])
          @ (if resolvedFilters v = [] then []
             else [''-vf'', filtersToString (resolvedFilters v)]))"

definition input_group :: "string \<Rightarrow> InputSettings \<Rightarrow> string list" where
  "input_group address i =
     flag (\<lambda>e. True) (in_extraOpts i) (\<lambda>e. e)
     @ flag str_truthy (in_format i) (\<lambda>f. [''-f'', f])
     @ flag num_truthy (in_fps i) (\<lambda>n. [''-r'', num_toString n])
     @ flag (\<lambda>b. b) (in_readrateNative i) (\<lambda>b. [''-re''])
     @ flag time_truthy (in_startTime i) (\<lambda>t. [''-ss'', time_toString t])
     @ flag (\<lambda>b. b) (in_loop i) (\<lambda>b. [''-loop'', ''-1''])
     @ [''-i'', address]"

definition output_group :: "string \<Rightarrow> OutputSettings \<Rightarrow> string list" where
  "output_group address out =
     flag str_truthy (out_format out) (\<lambda>f. [''-f'', f])
     @ flag time_truthy (out_startTime out) (\<lambda>t. [''-ss'', time_toString t])
     @ flag time_truthy (out_duration out) (\<lambda>t. [''-t'', time_toString t])
     @ audio_block (out_audio out)
     @ video_block (out_video out)
     @ flag (\<lambda>e. True) (out_extraOpts out) (\<lambda>e. e)
     @ [address]"

text \<open>
  The address of each source and destination: its path, or the address of the
  bridge made for it. The bridges are made in the order of the inputs, then of the
  outputs, so the \<open>k\<close>-th stream met gets the \<open>k\<close>-th identifier drawn from \<open>n\<close> on.
\<close>

fun is_stream_src :: "Src \<Rightarrow> bool" where
  "is_stream_src (SrcStream s) = True"
| "is_stream_src (SrcPath p) = False"

fun is_stream_dst :: "Dst \<Rightarrow> bool" where
  "is_stream_dst (DstStream s pipeArgs) = True"
| "is_stream_dst (DstPath p) = False"

definition bridge_address :: "World \<Rightarrow> nat \<Rightarrow> string" where
  "bridge_address w n = pipe_url (platform w) (randomUUIDs w n)"

definition src_address :: "World \<Rightarrow> nat \<Rightarrow> Src \<Rightarrow> string" where
  "src_address w n src = (case src of SrcPath p \<Rightarrow> p | SrcStream s \<Rightarrow> bridge_address w n)"

definition dst_address :: "World \<Rightarrow> nat \<Rightarrow> Dst \<Rightarrow> string" where
  "dst_address w n dst =
     (case dst of DstPath p \<Rightarrow> p | DstStream s pipeArgs \<Rightarrow> bridge_address w n)"

fun input_groups :: "World \<Rightarrow> nat \<Rightarrow> InputSettings list \<Rightarrow> string list list" where
  "input_groups w n [] = []"
| "input_groups w n (i # rest) =
     input_group (src_address w n (in_src i)) i
     # input_groups w (if is_stream_src (in_src i) then Suc n else n) rest"

fun output_groups :: "World \<Rightarrow> nat \<Rightarrow> OutputSettings list \<Rightarrow> string list list" where
  "output_groups w n [] = []"
| "output_groups w n (out # rest) =
     output_group (dst_address w n (out_dst out)) out
     # output_groups w (if is_stream_dst (out_dst out) then Suc n else n) rest"

definition stream_inputs :: "InputSettings list \<Rightarrow> nat" where
  "stream_inputs ins = length (filter (\<lambda>i. is_stream_src (in_src i)) ins)"

definition stream_outputs :: "OutputSettings list \<Rightarrow> nat" where
  "stream_outputs outs = length (filter (\<lambda>out. is_stream_dst (out_dst out)) outs)"

section \<open>Views of a command\<close>

text \<open>What \<open>run\<close> hands to \<open>execa\<close> as arguments, or the error it throws.\<close>

definition run_arguments :: "World \<Rightarrow> FFmpegCommand \<Rightarrow> Error + string list" where
  "run_arguments w c = (case run w c of Inl err \<Rightarrow> Inl err | Inr r \<Rightarrow> Inr (argv (fst r)))"

text \<open>
  The command with one of its inputs, or outputs, changed: the \<open>k\<close>-th, counted from
  \<open>0\<close>. A command with no such input or output is left as it is.
\<close>

definition with_input ::
    "nat \<Rightarrow> (InputSettings \<Rightarrow> InputSettings) \<Rightarrow> FFmpegCommand \<Rightarrow> FFmpegCommand" where
  "with_input k f c = c\<lparr> inputs := (inputs c)[k := f (inputs c ! k)] \<rparr>"

definition with_output ::
    "nat \<Rightarrow> (OutputSettings \<Rightarrow> OutputSettings) \<Rightarrow> FFmpegCommand \<Rightarrow> FFmpegCommand" where
  "with_output k f c = c\<lparr> outputs := (outputs c)[k := f (outputs c ! k)] \<rparr>"

text \<open>A change of the audio, or video, settings of an output; none where they are disabled.\<close>

definition in_audio :: "(AudioSettings \<Rightarrow> AudioSettings) \<Rightarrow> OutputSettings \<Rightarrow> OutputSettings" where
  "in_audio f out = out\<lparr> out_audio := map_option f (out_audio out) \<rparr>"

definition in_video :: "(VideoSettings \<Rightarrow> VideoSettings) \<Rightarrow> OutputSettings \<Rightarrow> OutputSettings" where
  "in_video f out = out\<lparr> out_video := map_option f (out_video out) \<rparr>"

text \<open>The current output, the last one, has its audio, or its video, disabled.\<close>

definition audio_disabled :: "FFmpegCommand \<Rightarrow> bool" where
  "audio_disabled c = (outputs c \<noteq> [] \<and> out_audio (last (outputs c)) = None)"

definition video_disabled :: "FFmpegCommand \<Rightarrow> bool" where
  "video_disabled c = (outputs c \<noteq> [] \<and> out_video (last (outputs c)) = None)"

text \<open>The maximum as \<open>processStderr\<close> reads it: \<open>this._options.stdoutLines\<close>.\<close>

definition maximum :: "FFmpegCommand \<Rightarrow> jsnum option" where
  "maximum c = read_key (stdoutLines (options c))"

text \<open>A number below zero, and an array that holds no more elements than a number says.\<close>

fun num_negative :: "jsnum \<Rightarrow> bool" where
  "num_negative NInf = True"
| "num_negative (Fin m e) = (m < 0)"
| "num_negative x = False"

definition holds_at_most :: "jsnum \<Rightarrow> 'a list \<Rightarrow> bool" where
  "holds_at_most m xs = (\<not> length_gt (int (length xs)) m)"

text \<open>
  A size string that is not a percentage and whose first two tokens are \<open>ws\<close> and
  \<open>hs\<close>: \<open>ws\<close>, an \<open>x\<close>, \<open>hs\<close>, and then nothing or a further \<open>x\<close> with whatever
  follows it, which \<open>size\<close> does not look at.
\<close>

definition size_string :: "string \<Rightarrow> string \<Rightarrow> string \<Rightarrow> string" where
  "size_string ws hs after = ws @ ''x'' @ hs @ after"

definition two_tokens :: "string \<Rightarrow> string \<Rightarrow> string \<Rightarrow> bool" where
  "two_tokens ws hs after =
     (ws \<noteq> [] \<and> hs \<noteq> [] \<and> CHR ''x'' \<notin> set ws \<and> CHR ''x'' \<notin> set hs
      \<and> (after = [] \<or> hd after = CHR ''x'') \<and> last (hs @ after) \<noteq> CHR ''%'')"






text \<open>
  The pairs of a record joined in the order of insertion, as the specification
  words the printing of a record.
\<close>

definition insertion_order_toString :: "(string \<times> jsval) list \<Rightarrow> string" where
  "insertion_order_toString kvs = js_join '':'' (map key_value (own_properties kvs))"

text \<open>The one activity that adds an output: a call of \<open>output\<close>.\<close>

fun adds_output :: "Activity \<Rightarrow> bool" where
  "adds_output (Called (Output dst)) = True"
| "adds_output a = False"

text \<open>The output that \<open>output\<close> appends: audio and video enabled, nothing set.\<close>

definition fresh_output :: "Dst \<Rightarrow> OutputSettings" where
  "fresh_output dst =
     \<lparr> out_dst = dst,
       out_audio = Some \<lparr> a_codec = None, a_bitrate = None, a_channels = None,
                          a_freq = None, a_quality = None, a_filters = None \<rparr>,
       out_video = Some \<lparr> v_codec = None, v_bitrate = None, v_filters = None,
                          v_fps = None, v_frames = None, v_size = None \<rparr>,
       out_format = None, out_duration = None, out_startTime = None,
       out_extraOpts = None \<rparr>"

text \<open>A method call returned and did not throw.\<close>

definition returned :: "Error + 'a \<Rightarrow> bool" where
  "returned r = (case r of Inl err \<Rightarrow> False | Inr x \<Rightarrow> True)"

text \<open>The sockets that connect before the first close, of either kind.\<close>

fun connections_before_close :: "BridgeEvent list \<Rightarrow> socket list" where
  "connections_before_close [] = []"
| "connections_before_close (Connect sock # evs) = sock # connections_before_close evs"
| "connections_before_close (ev # evs) = []"

fun is_close :: "BridgeEvent \<Rightarrow> bool" where
  "is_close (Connect sock) = False"
| "is_close ev = True"

section \<open>Example commands\<close>

text \<open>A world on Linux whose \<open>n\<close>-th identifier is \<open>uuid-n\<close>, and a tokenizer that splits at spaces.\<close>

definition linux :: World where
  "linux = \<lparr> platform = ''linux'', randomUUIDs = (\<lambda>n. ''uuid-'' @ dec n), drawn = 0,
             ffmpegPath = ''ffmpeg'', bridges = [] \<rparr>"

definition words :: "string \<Rightarrow> string list" where
  "words s = js_split CHR '' '' s"

text \<open>
  Two inputs, a file and a stream, and two outputs, a file and a stream, as the
  calls of \<open>example_command_built\<close> below leave them.
\<close>

definition example_command :: FFmpegCommand where
  "example_command =
     \<lparr> options = \<lparr> timeout = Absent, niceness = Present (Some (js_int 0)), priority = Absent,
                   stdoutLines = Present (Some (js_int 100)) \<rparr>,
       inputs =
         [\<lparr> in_src = SrcPath ''a.mp4'', in_format = Some ''mp4'', in_fps = None,
            in_readrateNative = None, in_startTime = Some (TimeStr ''00:01''), in_loop = None,
            in_extraOpts = Some [''-thread_queue_size'', ''64''] \<rparr>,
          \<lparr> in_src = SrcStream 7, in_format = None, in_fps = None,
            in_readrateNative = Some True, in_startTime = None, in_loop = Some True,
            in_extraOpts = None \<rparr>],
       outputs =
         [\<lparr> out_dst = DstPath ''out.mkv'', out_audio = None,
            out_video = Some \<lparr> v_codec = None, v_bitrate = Some (BitrateStr ''1M''),
                               v_filters = None, v_fps = None, v_frames = None, v_size = None \<rparr>,
            out_format = None, out_duration = Some (TimeStr ''10''), out_startTime = None,
            out_extraOpts = Some [''-y''] \<rparr>,
          \<lparr> out_dst = DstStream 9 None,
            out_audio = Some \<lparr> a_codec = Some ''libmp3lame'', a_bitrate = None,
                               a_channels = None, a_freq = None, a_quality = None,
                               a_filters = None \<rparr>,
            out_video = None, out_format = Some ''mp3'', out_duration = None,
            out_startTime = None, out_extraOpts = None \<rparr>],
       proc = None, stderrLines = [], emitted = [] \<rparr>"

text \<open>The caller's object \<open>{ stdoutLines: v }\<close>, and a list of \<open>n\<close> different lines.\<close>

definition only_stdoutLines :: "jsnum option \<Rightarrow> Options" where
  "only_stdoutLines v =
     \<lparr> timeout = Absent, niceness = Absent, priority = Absent, stdoutLines = Present v \<rparr>"

definition some_lines :: "nat \<Rightarrow> string list" where
  "some_lines n = map (\<lambda>k. ''frame='' @ dec k) [0..<n]"

text \<open>A command with one input and one output, nothing set.\<close>

definition plain_command :: FFmpegCommand where
  "plain_command =
     output_call (DstPath ''out.mp4'') (input (SrcPath ''in.mp4'') (new_FFmpegCommand None))"

text \<open>Video settings with two explicit filters and a size of fifty percent.\<close>

definition scaled_video :: VideoSettings where
  "scaled_video =
     \<lparr> v_codec = None, v_bitrate = None,
       v_filters = Some [FilterString ''hflip'', FilterObject ''crop'' (OptArray [''100'', ''80''])],
       v_fps = None, v_frames = None, v_size = Some (SizePercent (js_int 50)) \<rparr>"

section \<open>Unfolding the definitions\<close>

lemmas builder_defs = new_FFmpegCommand_def input_def getLastInput_def withLastInput_def
  inputFormat_def inputFPS_def native_def seekInput_def loop_def append_opts_def
  inputOptions_def output_call_def getLastOutput_def setLastOutput_def withLastOutput_def
  outputOptions_def noAudio_def setAudioProps_def audioCodec_def audioBitrate_def
  audioChannels_def audioFrequency_def audioQuality_def append_filters_def audioFilters_def
  noVideo_def setVideoProps_def videoCodec_def videoBitrate_def fps_def frames_def
  size_call_def videoFilters_def duration_def seek_def format_def

lemmas group_defs = input_group_def output_group_def flag_def audio_block_def
  video_block_def resolvedFilters_def filtersToString_def src_address_def dst_address_def
  bridge_address_def pipe_url_def pipe_path_def str_truthy_def

lemma example_command_built:
  "calls words
     [Input (SrcPath ''a.mp4''), InputFormat ''mp4'', SeekInput (TimeStr ''00:01''),
      InputOptions [Single ''-thread_queue_size 64''],
      Input (SrcStream 7), Native, Loop VUndefined,
      Output (DstPath ''out.mkv''), NoAudio, VideoBitrate (BitrateStr ''1M''),
      Duration (TimeStr ''10''), OutputOptions [Several [''-y'']],
      Output (DstStream 9 None), Format ''mp3'', NoVideo, AudioCodec ''libmp3lame'']
     (new_FFmpegCommand None) = Inr example_command"
  by (simp add: builder_defs example_command_def words_def js_split_def)

lemmas run_defs = run_arguments_def run_def lower_input_def lower_output_def push_if_def
  push_src_def push_dst_def push_audio_def push_video_def StreamInput_def StreamOutput_def
  new_NamedPipeStream_def pipe_url_def pipe_path_def resolvedFilters_def filtersToString_def
  str_truthy_def Let_def

section \<open>Numbers at work\<close>

lemmas num_defs = scale_def ilog_def ndigits.simps round_half_even_def strip_factor.simps
  fin_def round_double_def digit_char_def dec.simps round_trips_def shortest.simps
  format_digits_def format_decimal_def shortest_decimal_def pos_toString_def Let_def

lemmas parse_defs = js_parseFloat_def parse_unsigned_def js_parseInt_def parse_digits_def
  strip_sign_def starts_with_def is_space_def is_digit_def is_hex_digit_def digits_val_def
  digit_val_def exponent_part_def

lemma js_int_values:
  "js_int 0 = Fin 0 0" "js_int 2 = Fin 1 1" "js_int 30 = Fin 15 1" "js_int 50 = Fin 25 1"
  "js_int 720 = Fin 45 4" "js_int 1280 = Fin 5 8"
  by (simp_all add: js_int_def num_defs)

lemma js_int_100: "js_int 100 = Fin 25 2"
  by (simp add: js_int_def num_defs)

lemma js_int_small: "js_int 1 = Fin 1 0" "js_int 3 = Fin 3 0"
  by (simp_all add: js_int_def num_defs)

lemma js_int_negative_values: "js_int (- 1) = Fin (- 1) 0" "js_int (- 5) = Fin (- 5) 0"
  by (simp_all add: js_int_def num_defs)

lemma round_double_one: "round_double False (1, 1) = Fin 1 0"
  by (simp add: num_defs)

lemma round_double_half: "round_double False (1, 2) = Fin 1 (- 1)"
  by (simp add: num_defs)

lemma js_parseInt_values:
  "js_parseInt ''0'' = Fin 0 0" "js_parseInt ''720'' = Fin 45 4"
  "js_parseInt ''1280'' = Fin 5 8" "js_parseInt ''abc'' = NaN"
  "js_parseInt ''5'' = Fin 5 0" "js_parseInt ''-3'' = Fin (- 3) 0"
  by (simp_all add: parse_defs num_defs)

lemma js_parseFloat_values:
  "js_parseFloat ''0'' = Fin 0 0" "js_parseFloat ''50'' = Fin 25 1"
  "js_parseFloat ''abc'' = NaN" "js_parseFloat ''Infinity'' = PInf"
  "js_parseFloat ''2.5'' = Fin 5 (- 1)"
  by (simp_all add: parse_defs num_defs)

lemma num_div_values: "num_div (Fin 25 1) 100 = Fin 1 (- 1)"
  by (simp add: num_defs)

lemma num_toString_values:
  "num_toString (Fin 1 (- 1)) = ''0.5''" "num_toString (Fin 5 8) = ''1280''"
  "num_toString (Fin 45 4) = ''720''" "num_toString (Fin 15 1) = ''30''"
  by (simp_all add: num_defs)

lemma num_toString_small: "num_toString (Fin 1 0) = ''1''" "num_toString (Fin 3 0) = ''3''"
  by (simp_all add: num_defs)

section \<open>Rounding to a double, from below\<close>

lemma ndigits_bounds:
  "0 < n \<Longrightarrow> 2 ^ ndigits 2 n \<le> 2 * n \<and> n < 2 ^ ndigits 2 n"
proof (induction n rule: less_induct)
  case (less n)
  show ?case
  proof (cases "n div 2 = 0")
    case True
    with less.prems have "n = 1" by linarith
    then show ?thesis by (simp add: ndigits.simps)
  next
    case False
    then have pos: "0 < n div 2" by simp
    have lt: "n div 2 < n" using less.prems by simp
    have ih: "2 ^ ndigits 2 (n div 2) \<le> 2 * (n div 2) \<and> n div 2 < 2 ^ ndigits 2 (n div 2)"
      using less.IH[OF lt pos] .
    have unf: "ndigits 2 n = Suc (ndigits 2 (n div 2))"
      using less.prems by (subst ndigits.simps) simp
    show ?thesis unfolding unf using ih by (simp, linarith)
  qed
qed

lemma ndigits_mono:
  assumes "0 < d" "d \<le> p"
  shows "ndigits 2 d \<le> ndigits 2 p"
proof (rule ccontr)
  assume "\<not> ndigits 2 d \<le> ndigits 2 p"
  then have "Suc (ndigits 2 p) \<le> ndigits 2 d" by simp
  then have "(2::nat) ^ Suc (ndigits 2 p) \<le> 2 ^ ndigits 2 d"
    by (rule power_increasing) simp
  moreover have "2 ^ ndigits 2 d \<le> 2 * d" using ndigits_bounds[OF assms(1)] by simp
  moreover have "p < 2 ^ ndigits 2 p" using ndigits_bounds[of p] assms by simp
  ultimately show False using assms(2) by simp
qed

text \<open>ilog from below\<close>

lemma ilog_lower:
  assumes "0 < p" "0 < d" "d \<le> p"
  shows "0 \<le> ilog 2 (p, d) \<and> d * 2 ^ nat (ilog 2 (p, d)) \<le> p"
proof -
  let ?np = "ndigits 2 (nat p)" and ?nd = "ndigits 2 (nat d)"
  have mono: "?nd \<le> ?np" using assms by (intro ndigits_mono) simp_all
  have bp: "2 ^ ?np \<le> 2 * nat p" using ndigits_bounds[of "nat p"] assms by simp
  have bd: "nat d < 2 ^ ?nd" using ndigits_bounds[of "nat d"] assms by simp
  define t0 where "t0 = ?np - ?nd"
  have t0: "int ?np - int ?nd = int t0" using mono by (simp add: t0_def)
  show ?thesis
  proof (cases "t0 = 0")
    case True
    then show ?thesis using assms t0 by (simp add: ilog_def scale_def Let_def)
  next
    case False
    then obtain k where k: "t0 = Suc k" by (cases t0) auto
    have sc: "scale 2 (p, d) (- int t0) = (p, d * 2 ^ t0)"
      using False by (simp add: scale_def)
    show ?thesis
    proof (cases "p < d * 2 ^ t0")
      case True
      then have il: "ilog 2 (p, d) = int k"
        using t0 sc k by (simp add: ilog_def Let_def)
      have "nat d * 2 ^ k < 2 ^ ?nd * 2 ^ k" using bd by simp
      also have "\<dots> = 2 ^ (?nd + k)" by (simp add: power_add)
      also have "?nd + k = ?np - 1" using k mono by (simp add: t0_def)
      finally have "2 * (nat d * 2 ^ k) < 2 * 2 ^ (?np - 1)" by simp
      also have "2 * 2 ^ (?np - 1) = (2::nat) ^ ?np"
        using k mono by (cases ?np) (simp_all add: t0_def)
      finally have "nat d * 2 ^ k < nat p" using bp by simp
      then have "int (nat d * 2 ^ k) < int (nat p)" by (simp only: of_nat_less_iff)
      then have "d * 2 ^ k \<le> p" using assms by simp
      then show ?thesis using il by simp
    next
      case False
      then have il: "ilog 2 (p, d) = int t0"
        using t0 sc by (simp add: ilog_def Let_def)
      show ?thesis using il False by simp
    qed
  qed
qed

lemma round_half_even_lower:
  assumes "0 < d" "N * d \<le> p"
  shows "N \<le> round_half_even (p, d)"
proof -
  have "N * d div d \<le> p div d" using assms(2) assms(1) by (rule zdiv_mono1)
  then have "N \<le> p div d" using assms(1) by simp
  then show ?thesis by (simp add: round_half_even_def Let_def)
qed

lemma strip_factor_trunc:
  assumes "strip_factor 2 m q = (m', q')" "0 < m"
  shows "0 < m' \<and> trunc_fin (int m') q' = trunc_fin (int m) q"
  using assms
proof (induction "2::nat" m q rule: strip_factor.induct)
  case (1 m e)
  show ?case
  proof (cases "m mod 2 = 0")
    case True
    then have rec: "strip_factor 2 (m div 2) (e + 1) = (m', q')"
      using "1.prems" by (subst (asm) strip_factor.simps) simp
    have pos: "0 < m div 2" using True "1.prems"(2) by presburger
    have ih: "0 < m' \<and> trunc_fin (int m') q' = trunc_fin (int (m div 2)) (e + 1)"
      using "1.hyps"[OF _ rec pos] True "1.prems"(2) by simp
    have ev: "int m = 2 * int (m div 2)" using True by presburger
    have "trunc_fin (int (m div 2)) (e + 1) = trunc_fin (int m) e"
    proof (cases "0 \<le> e")
      case True
      then have "nat (e + 1) = Suc (nat e)" by simp
      then show ?thesis using True ev by (simp add: trunc_fin_def)
    next
      case False
      then obtain k where k: "nat (- e) = Suc k" by (cases "nat (- e)") auto
      then have k': "nat (- (e + 1)) = k" by simp
      have "int m div 2 ^ Suc k = int (m div 2) div 2 ^ k"
        by (subst ev) (simp add: zdiv_zmult2_eq[symmetric])
      then show ?thesis using False k k'
        by (cases "e + 1 = 0") (simp_all add: trunc_fin_def)
    qed
    then show ?thesis using ih by simp
  next
    case False
    then have "strip_factor 2 m e = (m, e)" by (subst strip_factor.simps) simp
    then show ?thesis using "1.prems" by simp
  qed
qed


text \<open>The double nearest to a rational that is at least the integer N is at least N.\<close>

lemma fin_trunc:
  assumes "0 < m"
  shows "\<exists>m' q'. fin False m q = Fin m' q' \<and> 0 < m' \<and> trunc_fin m' q' = trunc_fin m q"
proof -
  obtain a b where ab: "strip_factor 2 (nat m) q = (a, b)" by (cases "strip_factor 2 (nat m) q")
  have "0 < a \<and> trunc_fin (int a) b = trunc_fin (int (nat m)) q"
    using strip_factor_trunc[OF ab] assms by simp
  then show ?thesis using ab assms by (simp add: fin_def)
qed

lemma round_double_lower:
  assumes "0 < d" "0 \<le> N" "N \<le> 2 ^ 53" "N * d \<le> p"
  shows "round_double False (p, d) = PInf
         \<or> (\<exists>m e. round_double False (p, d) = Fin m e \<and> N \<le> trunc_fin m e)"
proof (cases "p = 0")
  case True
  then have "N = 0" using assms by (simp add: mult_le_0_iff)
  then show ?thesis using True by (simp add: round_double_def trunc_fin_def)
next
  case False
  then have p: "0 < p" using assms
    by (metis less_le mult_nonneg_nonneg less_imp_le order_trans)
  define q where "q = max (ilog 2 (p, d) - 52) (- 1074)"
  define m where "m = round_half_even (scale 2 (p, d) (- q))"
  have rd: "round_double False (p, d) =
      (if 0 \<le> q \<and> 2 ^ 1024 \<le> m * 2 ^ nat q then PInf else fin False m q)"
    unfolding round_double_def Let_def q_def m_def fst_conv by (simp only: False if_False)
  have low: "N \<le> trunc_fin m q \<and> 0 \<le> m"
  proof (cases "q \<le> 0")
    case True
    then have sc: "scale 2 (p, d) (- q) = (p * 2 ^ nat (- q), d)" by (simp add: scale_def)
    have "N * 2 ^ nat (- q) * d \<le> p * 2 ^ nat (- q)"
      using assms(4) by (simp add: mult.commute mult.left_commute)
    then have mN: "N * 2 ^ nat (- q) \<le> m"
      unfolding m_def sc using assms(1) by (intro round_half_even_lower)
    have m0: "0 \<le> m" using mN assms(2)
      by (meson mult_nonneg_nonneg order_trans zero_le_numeral zero_le_power)
    have "N * 2 ^ nat (- q) div 2 ^ nat (- q) \<le> m div 2 ^ nat (- q)"
      using mN by (rule zdiv_mono1) simp
    then have "N \<le> m div 2 ^ nat (- q)" by simp
    then show ?thesis using True m0 mN by (cases "q = 0") (simp_all add: trunc_fin_def)
  next
    case False
    then have qpos: "0 < q" by simp
    then have il: "ilog 2 (p, d) = q + 52" by (simp add: q_def max_def split: if_splits)
    have dp: "d \<le> p"
    proof (rule ccontr)
      assume "\<not> d \<le> p"
      then have "p < d" by simp
      moreover have "ndigits 2 (nat p) \<le> ndigits 2 (nat d)"
        using p \<open>p < d\<close> by (intro ndigits_mono) simp_all
      ultimately have "ilog 2 (p, d) \<le> 0" by (simp add: ilog_def Let_def)
      then show False using il qpos by simp
    qed
    have lo: "d * 2 ^ nat (q + 52) \<le> p" using ilog_lower[OF p assms(1) dp] il by simp
    have sc: "scale 2 (p, d) (- q) = (p, d * 2 ^ nat q)" using qpos by (simp add: scale_def)
    have "nat (q + 52) = nat q + 52" using qpos by simp
    then have "2 ^ 52 * (d * 2 ^ nat q) \<le> p" using lo by (simp add: power_add mult.commute mult.left_commute)
    then have m52: "2 ^ 52 \<le> m"
      unfolding m_def sc using assms(1) by (intro round_half_even_lower) simp_all
    have "(2::int) ^ 1 \<le> 2 ^ nat q" using qpos by (intro power_increasing) simp_all
    then have "(2::int) ^ 52 * 2 ^ 1 \<le> m * 2 ^ nat q"
      using m52 by (intro mult_mono) simp_all
    then have "N \<le> m * 2 ^ nat q" using assms(3) by simp
    then show ?thesis using qpos m52 by (simp add: trunc_fin_def)
  qed
  show ?thesis
  proof (cases "m = 0")
    case True
    then have "N \<le> 0" using low by (simp add: trunc_fin_def split: if_splits)
    then show ?thesis using rd True by (simp add: fin_def trunc_fin_def)
  next
    case False
    then have "0 < m" using low by simp
    from fin_trunc[OF this, of q] low show ?thesis unfolding rd by auto
  qed
qed




section \<open>Properties of the diagnostic-line buffer\<close>

lemma feed_append: "feed (xs @ ys) c = feed ys (feed xs c)"
  by (induction xs arbitrary: c) simp_all

lemma processStderr_options: "options (processStderr l c) = options c"
  by (simp add: processStderr_def Let_def)

lemma feed_options: "options (feed ls c) = options c"
  by (induction ls arbitrary: c) (simp_all add: processStderr_options)

lemma feed_maximum: "maximum (feed ls c) = maximum c"
  by (simp add: maximum_def feed_options)

lemma feed_proc: "proc (feed ls c) = proc c"
  by (induction ls arbitrary: c) (simp_all add: processStderr_def Let_def)

lemma feed_snoc: "feed (ls @ [l]) c = processStderr l (feed ls c)"
  by (simp add: feed_append)

lemma js_slice_drop: "\<exists>k. js_slice x xs = drop k xs"
proof (cases x)
  case PInf
  then show ?thesis by (auto intro: exI[of _ "length xs"])
next
  case NInf
  then show ?thesis by (auto intro: exI[of _ 0])
next
  case NaN
  then show ?thesis by (auto simp: slice_from_def intro: exI[of _ 0])
next
  case (Fin m e)
  then show ?thesis by (simp add: slice_from_def Let_def) blast
qed

lemma js_slice_length: "length (js_slice x xs) \<le> length xs"
  using js_slice_drop[of x xs] by auto

text \<open>What \<open>processStderr\<close> keeps, by the maximum.\<close>

lemma processStderr_lines:
  "stderrLines (processStderr l c) =
     (case maximum c of
        None \<Rightarrow> stderrLines c @ [l]
      | Some m \<Rightarrow>
          if num_truthy m \<and> length_gt (1 + int (length (stderrLines c))) m
          then js_slice (length_minus (1 + int (length (stderrLines c))) m) (stderrLines c @ [l])
          else stderrLines c @ [l])"
  by (simp add: processStderr_def maximum_def Let_def split: option.splits)


lemma js_slice_from_lower:
  assumes "r = PInf \<or> (\<exists>m e. r = Fin m e \<and> N \<le> trunc_fin m e)" and "0 \<le> N"
  shows "length (js_slice r xs) \<le> length xs - nat N"
  using assms by (auto simp: slice_from_def Let_def)

text \<open>A negative maximum.\<close>

lemma length_minus_negative:
  assumes "a < 0" "0 \<le> n" "n \<le> 2 ^ 53"
  shows "length_minus n (Fin a e) = PInf
         \<or> (\<exists>m' e'. length_minus n (Fin a e) = Fin m' e' \<and> n \<le> trunc_fin m' e')"
proof (cases "0 \<le> e")
  case True
  define P :: int where "P = 2 ^ nat e"
  have P: "0 < P" by (simp add: P_def)
  have "a * P < 0" using assms(1) P by (simp add: mult_neg_pos)
  then have pos: "0 < n - a * P" "n * 1 \<le> n - a * P" using assms(2) by simp_all
  have "length_minus n (Fin a e) = round_double False (n - a * P, 1)"
    using True pos(1) by (simp add: signed_round_def P_def)
  then show ?thesis
    using round_double_lower[of 1 n "n - a * P"] assms pos by simp
next
  case False
  define P :: int where "P = 2 ^ nat (- e)"
  have P: "0 < P" by (simp add: P_def)
  have "0 \<le> n * P" using assms(2) P by simp
  then have pos: "0 < n * P - a" "n * P \<le> n * P - a" using assms(1) by simp_all
  have "length_minus n (Fin a e) = round_double False (n * P - a, P)"
    using False pos(1) by (simp add: signed_round_def P_def)
  then show ?thesis
    using round_double_lower[of P n "n * P - a"] assms pos P by simp
qed

lemma length_gt_negative: "a < 0 \<Longrightarrow> 0 < n \<Longrightarrow> length_gt n (Fin a e)"
proof -
  assume a: "a < 0" and n: "0 < n"
  have "a * 2 ^ nat e < 0" using a by (simp add: mult_neg_pos)
  then have 1: "a * 2 ^ nat e < n" using n by (rule less_trans)
  have "0 < n * 2 ^ nat (- e)" using n by simp
  with a have 2: "a < n * 2 ^ nat (- e)" by (rule less_trans)
  show ?thesis using 1 2 by simp
qed

lemma processStderr_lines_neg:
  assumes "maximum c = Some m" "num_negative m" "length (stderrLines c) < 2 ^ 53"
  shows "stderrLines (processStderr l c) = []"
proof (cases m)
  case NInf
  then show ?thesis using assms(1) by (simp add: processStderr_lines)
next
  case (Fin a e)
  let ?n = "1 + int (length (stderrLines c))"
  have a: "a < 0" using assms(2) Fin by simp
  have "int (length (stderrLines c)) < 2 ^ 53"
    using assms(3) by (metis of_nat_less_iff of_nat_numeral of_nat_power)
  then have n: "0 \<le> ?n" "0 < ?n" "?n \<le> 2 ^ 53" by simp_all
  have gt: "length_gt ?n (Fin a e)" using a n(2) by (rule length_gt_negative)
  have "length (js_slice (length_minus ?n (Fin a e)) (stderrLines c @ [l]))
          \<le> length (stderrLines c @ [l]) - nat ?n"
    using length_minus_negative[OF a n(1) n(3)] n(1) by (rule js_slice_from_lower)
  then have "js_slice (length_minus ?n (Fin a e)) (stderrLines c @ [l]) = []" by simp
  then show ?thesis using assms(1) Fin a gt by (simp add: processStderr_lines)
qed (use assms(2) in simp_all)

lemma feed_lines_neg:
  assumes "maximum c = Some m" "num_negative m" "length (stderrLines c) < 2 ^ 53" "ls \<noteq> []"
  shows "stderrLines (feed ls c) = []"
  using assms
proof (induction ls arbitrary: c)
  case Nil
  then show ?case by simp
next
  case (Cons l ls)
  have step: "stderrLines (processStderr l c) = []"
    using Cons.prems(1,2,3) by (rule processStderr_lines_neg)
  show ?case
  proof (cases "ls = []")
    case True
    then show ?thesis using step by simp
  next
    case False
    have "maximum (processStderr l c) = Some m"
      using Cons.prems(1) by (simp add: maximum_def processStderr_options)
    then show ?thesis using Cons.IH[of "processStderr l c"] Cons.prems(2) step False by simp
  qed
qed


text \<open>The buffer is always an end of what was fed.\<close>

lemma processStderr_suffix:
  "\<exists>k. stderrLines (processStderr l c) = drop k (stderrLines c @ [l])"
proof (cases "maximum c")
  case None
  then show ?thesis by (auto simp: processStderr_lines intro: exI[of _ 0])
next
  case (Some m)
  show ?thesis
  proof (cases "num_truthy m \<and> length_gt (1 + int (length (stderrLines c))) m")
    case True
    then have "stderrLines (processStderr l c) =
        js_slice (length_minus (1 + int (length (stderrLines c))) m) (stderrLines c @ [l])"
      using Some by (simp add: processStderr_lines)
    then show ?thesis using js_slice_drop by metis
  next
    case False
    then show ?thesis using Some by (auto simp: processStderr_lines intro: exI[of _ 0])
  qed
qed

lemma processStderr_length:
  "length (stderrLines (processStderr l c)) \<le> Suc (length (stderrLines c))"
proof -
  obtain k where "stderrLines (processStderr l c) = drop k (stderrLines c @ [l])"
    using processStderr_suffix by blast
  then show ?thesis by (simp del: drop_append)
qed

text \<open>A positive maximum.\<close>

lemma div_mult_le_int: "0 < (P::int) \<Longrightarrow> x div P * P \<le> x"
proof -
  assume P: "0 < P"
  have "x div P * P + x mod P = x" by simp
  moreover have "0 \<le> x mod P" using P by simp
  ultimately show ?thesis by linarith
qed

lemma ceiling_fin_positive:
  assumes "0 < a"
  shows "0 < ceiling_fin a e"
    and "0 \<le> e \<Longrightarrow> ceiling_fin a e = a * 2 ^ nat e"
    and "e < 0 \<Longrightarrow> a \<le> ceiling_fin a e * 2 ^ nat (- e)"
proof -
  define P :: int where "P = 2 ^ nat (- e)"
  have P: "0 < P" by (simp add: P_def)
  have le: "(- a) div P * P \<le> - a" using P by (rule div_mult_le_int)
  show int: "0 \<le> e \<Longrightarrow> ceiling_fin a e = a * 2 ^ nat e" by (simp add: ceiling_fin_def)
  show up: "e < 0 \<Longrightarrow> a \<le> ceiling_fin a e * 2 ^ nat (- e)"
    using le by (simp add: ceiling_fin_def P_def)
  show "0 < ceiling_fin a e"
  proof (cases "0 \<le> e")
    case True
    then show ?thesis using int assms by simp
  next
    case False
    then have "0 < ceiling_fin a e * P" using up assms by (simp add: P_def)
    then show ?thesis using P by (simp add: zero_less_mult_iff)
  qed
qed

lemma length_gt_above_ceiling:
  assumes "0 < a" "ceiling_fin a e < n"
  shows "length_gt n (Fin a e)"
proof (cases "0 \<le> e")
  case True
  then show ?thesis using assms ceiling_fin_positive(2)[OF assms(1), of e] by simp
next
  case False
  define P :: int where "P = 2 ^ nat (- e)"
  have P: "0 < P" by (simp add: P_def)
  have "a \<le> ceiling_fin a e * P"
    using ceiling_fin_positive(3)[OF assms(1), of e] False by (simp add: P_def)
  also have "\<dots> < n * P" using assms(2) P by simp
  finally show ?thesis using False by (simp add: P_def)
qed

lemma length_minus_above_ceiling:
  assumes "0 < a" "ceiling_fin a e < n"
  shows "length_minus n (Fin a e) = PInf
         \<or> (\<exists>m' e'. length_minus n (Fin a e) = Fin m' e' \<and> 1 \<le> trunc_fin m' e')"
proof (cases "0 \<le> e")
  case True
  define P :: int where "P = 2 ^ nat e"
  have "a * P < n" using assms ceiling_fin_positive(2)[OF assms(1) True] by (simp add: P_def)
  then have pos: "0 < n - a * P" "1 * 1 \<le> n - a * P" by simp_all
  have "length_minus n (Fin a e) = round_double False (n - a * P, 1)"
    using True pos(1) by (simp add: signed_round_def P_def)
  then show ?thesis using round_double_lower[of 1 1 "n - a * P"] pos by simp
next
  case False
  define P :: int where "P = 2 ^ nat (- e)"
  have P: "0 < P" by (simp add: P_def)
  have "a \<le> ceiling_fin a e * P"
    using ceiling_fin_positive(3)[OF assms(1), of e] False by (simp add: P_def)
  moreover have "(ceiling_fin a e + 1) * P \<le> n * P" using assms(2) P by simp
  ultimately have "1 * P \<le> n * P - a" by (simp add: algebra_simps)
  then have pos: "0 < n * P - a" "1 * P \<le> n * P - a" using P by simp_all
  have "length_minus n (Fin a e) = round_double False (n * P - a, P)"
    using False pos(1) by (simp add: signed_round_def P_def)
  then show ?thesis using round_double_lower[of P 1 "n * P - a"] pos P by simp
qed

lemma processStderr_length_pos:
  assumes "maximum c = Some (Fin a e)" "0 < a"
    and "length (stderrLines c) \<le> nat (ceiling_fin a e)"
  shows "length (stderrLines (processStderr l c)) \<le> nat (ceiling_fin a e)"
proof (cases "length (stderrLines c) < nat (ceiling_fin a e)")
  case True
  have "length (stderrLines (processStderr l c)) \<le> Suc (length (stderrLines c))"
    by (rule processStderr_length)
  then show ?thesis using True by simp
next
  case False
  let ?n = "1 + int (length (stderrLines c))"
  have len: "int (length (stderrLines c)) = ceiling_fin a e"
    using False assms(3) ceiling_fin_positive(1)[OF assms(2), of e] by simp
  then have n: "ceiling_fin a e < ?n" by simp
  have gt: "length_gt ?n (Fin a e)" using assms(2) n by (rule length_gt_above_ceiling)
  have sl: "length (js_slice (length_minus ?n (Fin a e)) (stderrLines c @ [l]))
          \<le> length (stderrLines c @ [l]) - nat 1"
    using length_minus_above_ceiling[OF assms(2) n] by (rule js_slice_from_lower) simp
  have "stderrLines (processStderr l c) =
      js_slice (length_minus ?n (Fin a e)) (stderrLines c @ [l])"
    using assms(1,2) gt
    by (simp add: processStderr_lines del: length_minus.simps length_gt.simps)
  then show ?thesis using sl len by (simp del: length_minus.simps)
qed

lemma feed_length_pos:
  assumes "maximum c = Some (Fin a e)" "0 < a"
    and "length (stderrLines c) \<le> nat (ceiling_fin a e)"
  shows "length (stderrLines (feed ls c)) \<le> nat (ceiling_fin a e)"
proof (induction ls rule: rev_induct)
  case Nil
  show ?case using assms(3) by simp
next
  case (snoc l ls)
  have "maximum (feed ls c) = Some (Fin a e)" using assms(1) by (simp add: feed_maximum)
  then show ?case unfolding feed_snoc using assms(2) snoc by (rule processStderr_length_pos)
qed

text \<open>A positive maximum that is an integer.\<close>

lemma processStderr_lines_int:
  assumes "maximum c = Some (Fin a e)" "0 < a" "0 \<le> e"
    and "length (stderrLines c) \<le> nat (a * 2 ^ nat e)"
  shows "stderrLines (processStderr l c) =
           drop (Suc (length (stderrLines c)) - nat (a * 2 ^ nat e)) (stderrLines c @ [l])"
proof -
  define V :: int where "V = a * 2 ^ nat e"
  let ?n = "1 + int (length (stderrLines c))"
  have V: "0 < V" using assms(2) by (simp add: V_def)
  have le: "int (length (stderrLines c)) \<le> V" using assms(4) V by (simp add: V_def)
  have gt: "length_gt ?n (Fin a e) = (V < ?n)" using assms(3) by (simp add: V_def)
  show ?thesis
  proof (cases "V < ?n")
    case False
    then have "Suc (length (stderrLines c)) - nat V = 0" by simp
    then show ?thesis using assms(1) gt False by (simp add: processStderr_lines V_def)
  next
    case True
    then have eq: "?n - V = 1" using le by simp
    have "length_minus ?n (Fin a e) = signed_round (?n - V, 1)"
      using assms(3) by (simp add: V_def)
    also have "\<dots> = Fin 1 0" unfolding eq by (simp add: signed_round_def round_double_one)
    finally have lm: "length_minus ?n (Fin a e) = Fin 1 0" .
    have "Suc (length (stderrLines c)) - nat V = 1" using eq V by simp
    moreover have "js_slice (Fin 1 0) (stderrLines c @ [l]) = drop 1 (stderrLines c @ [l])"
      by (simp add: slice_from_def trunc_fin_def)
    ultimately show ?thesis
      using assms(1,2) gt True lm by (simp add: processStderr_lines V_def)
  qed
qed

text \<open>Sliding a window of the last \<open>M\<close> elements over one more element.\<close>

lemma window_snoc:
  assumes "0 < M"
  shows "drop (Suc (length (drop (length A - M) A)) - M) (drop (length A - M) A @ [l]) =
         drop (length (A @ [l]) - M) (A @ [l])"
proof (cases "length A \<le> M")
  case True
  then show ?thesis by simp
next
  case False
  then have a: "Suc (length A) - M = Suc (length A - M)" by simp
  from False assms have b: "Suc (length (drop (length A - M) A)) - M = 1" by simp
  from False assms have c: "length A - M < length A" by simp
  show ?thesis unfolding b using a c by simp
qed

lemma feed_lines_int:
  assumes "maximum c = Some (Fin a e)" "0 < a" "0 \<le> e"
    and "length (stderrLines c) \<le> nat (a * 2 ^ nat e)"
  shows "stderrLines (feed ls c) =
           drop (length (stderrLines c @ ls) - nat (a * 2 ^ nat e)) (stderrLines c @ ls)"
proof (induction ls rule: rev_induct)
  case Nil
  from assms show ?case by simp
next
  case (snoc l ls)
  let ?b = "stderrLines (feed ls c)"
  let ?all = "stderrLines c @ ls"
  let ?M = "nat (a * 2 ^ nat e)"
  have M: "0 < ?M" using assms(2) by simp
  have len: "length ?b \<le> ?M" unfolding snoc by (simp del: drop_append)
  have opt: "maximum (feed ls c) = Some (Fin a e)" using assms(1) by (simp add: feed_maximum)
  have "stderrLines (feed (ls @ [l]) c) = drop (Suc (length ?b) - ?M) (?b @ [l])"
    unfolding feed_snoc using processStderr_lines_int[OF opt assms(2,3) len] .
  also have "\<dots> = drop (length (?all @ [l]) - ?M) (?all @ [l])"
    unfolding snoc using window_snoc[OF M, of ?all l] by simp
  finally show ?case by simp
qed

text \<open>No capping.\<close>

lemma processStderr_lines_off:
  assumes "maximum c = None \<or> maximum c = Some NaN \<or> maximum c = Some (Fin 0 e)
           \<or> maximum c = Some PInf"
  shows "stderrLines (processStderr l c) = stderrLines c @ [l]"
  using assms by (auto simp: processStderr_lines)

lemma feed_lines_off:
  assumes "maximum c = None \<or> maximum c = Some NaN \<or> maximum c = Some (Fin 0 e)
           \<or> maximum c = Some PInf"
  shows "stderrLines (feed ls c) = stderrLines c @ ls"
proof (induction ls rule: rev_induct)
  case Nil
  show ?case by simp
next
  case (snoc l ls)
  have "maximum (feed ls c) = None \<or> maximum (feed ls c) = Some NaN
        \<or> maximum (feed ls c) = Some (Fin 0 e) \<or> maximum (feed ls c) = Some PInf"
    using assms by (simp add: feed_maximum)
  then show ?case unfolding feed_snoc using snoc by (simp add: processStderr_lines_off)
qed

lemma drop_snoc_suffix: "\<exists>j. drop k A @ [l] = drop j (A @ [l])"
proof (cases "k \<le> length A")
  case True
  then show ?thesis by (auto intro: exI[of _ k])
next
  case False
  then show ?thesis by (auto intro: exI[of _ "length A"])
qed

lemma feed_suffix: "\<exists>k. stderrLines (feed ls c) = drop k (stderrLines c @ ls)"
proof (induction ls rule: rev_induct)
  case Nil
  show ?case by (auto intro: exI[of _ 0])
next
  case (snoc l ls)
  then obtain k where k: "stderrLines (feed ls c) = drop k (stderrLines c @ ls)" by blast
  obtain i where i: "stderrLines (processStderr l (feed ls c)) = drop i (stderrLines (feed ls c) @ [l])"
    using processStderr_suffix by blast
  obtain j where j: "drop k (stderrLines c @ ls) @ [l] = drop j ((stderrLines c @ ls) @ [l])"
    using drop_snoc_suffix[of k "stderrLines c @ ls" l] by blast
  have "stderrLines (feed (ls @ [l]) c) = drop (i + j) (stderrLines c @ ls @ [l])"
    unfolding feed_snoc i k j by (simp del: drop_append add: add.commute)
  then show ?case by blast
qed

lemma new_FFmpegCommand_fields:
  "maximum (new_FFmpegCommand None) = Some (Fin 25 2)"
  "maximum (new_FFmpegCommand (Some (only_stdoutLines v))) = v"
  "stderrLines (new_FFmpegCommand opts) = []"
  "inputs (new_FFmpegCommand opts) = []"
  "outputs (new_FFmpegCommand opts) = []"
  "proc (new_FFmpegCommand opts) = None"
  by (simp_all add: new_FFmpegCommand_def spread_over_def maximum_def only_stdoutLines_def
      js_int_100 split: option.splits)

text \<open>
  Claim C3, as the code has it. With a negative maximum \<open>m\<close>, any negative number, the
  guard \<open>stdoutLines && length > stdoutLines\<close> holds after every push (a negative
  number is truthy and every length exceeds it), and \<open>slice(length - m)\<close> starts at
  the end of the array or past it: after every diagnostic line the buffer is empty,
  whatever it held before. No line is retained. The buffer is a JavaScript array:
  it has fewer than \<open>2 ^ 32\<close> elements, and the theorem asks only for a length
  below \<open>2 ^ 53\<close>, one that a double holds exactly.
\<close>

theorem negative_maximum_empties_buffer:
  assumes "maximum c = Some m" and "num_negative m" and "ls \<noteq> []"
    and "length (stderrLines c) < 2 ^ 53"
  shows "stderrLines (feed ls c) = []"
  using assms(1,2,4,3) by (rule feed_lines_neg)

theorem negative_maximum_empties_buffer_witness:
  "stderrLines (feed [''frame=1'', ''frame=2'', ''frame=3'']
     (new_FFmpegCommand (Some (only_stdoutLines (Some (js_int (- 5))))))) = []
   \<and> stderrLines (feed [''frame=1'', ''frame=2'']
     (new_FFmpegCommand (Some (only_stdoutLines (Some (Fin (- 1) (- 1))))))) = []
   \<and> stderrLines (feed [''frame=1'']
     (new_FFmpegCommand (Some (only_stdoutLines (Some NInf))))) = []"
proof (intro conjI)
  show "stderrLines (feed [''frame=1'', ''frame=2'', ''frame=3'']
     (new_FFmpegCommand (Some (only_stdoutLines (Some (js_int (- 5))))))) = []"
    using negative_maximum_empties_buffer
      [of "new_FFmpegCommand (Some (only_stdoutLines (Some (js_int (- 5)))))"
          "Fin (- 5) 0" "[''frame=1'', ''frame=2'', ''frame=3'']"]
    by (simp add: new_FFmpegCommand_fields js_int_negative_values)
  show "stderrLines (feed [''frame=1'', ''frame=2'']
     (new_FFmpegCommand (Some (only_stdoutLines (Some (Fin (- 1) (- 1))))))) = []"
    using negative_maximum_empties_buffer
      [of "new_FFmpegCommand (Some (only_stdoutLines (Some (Fin (- 1) (- 1)))))"
          "Fin (- 1) (- 1)" "[''frame=1'', ''frame=2'']"]
    by (simp add: new_FFmpegCommand_fields)
  show "stderrLines (feed [''frame=1'']
     (new_FFmpegCommand (Some (only_stdoutLines (Some NInf))))) = []"
    using negative_maximum_empties_buffer
      [of "new_FFmpegCommand (Some (only_stdoutLines (Some NInf)))" NInf "[''frame=1'']"]
    by (simp add: new_FFmpegCommand_fields)
qed

text \<open>
  Claim C3, as the specification states it, fails: with the maximum set to \<open>-1\<close> two
  lines are fed and neither is retained.
\<close>

theorem negative_maximum_retains_counterexample:
  "stderrLines (feed [''frame=1'', ''frame=2'']
     (new_FFmpegCommand (Some (only_stdoutLines (Some (js_int (- 1)))))))
   \<noteq> [''frame=1'', ''frame=2'']"
  using feed_lines_neg
      [of "new_FFmpegCommand (Some (only_stdoutLines (Some (js_int (- 1)))))"
          "Fin (- 1) 0" "[''frame=1'', ''frame=2'']"]
  by (simp add: new_FFmpegCommand_fields js_int_negative_values)

text \<open>
  Claim C8, as the code has it. With the default configuration, 150 lines leave
  exactly the last 100, in order. For every positive maximum that is an integer, a
  buffer that starts within the cap (the constructor's is empty) never holds more
  lines than the maximum and holds exactly the most recent ones. For every positive
  finite maximum, an integer or not, the buffer never holds more lines than the
  least integer that is not below the maximum. Whatever the maximum, the buffer is
  an end of what was fed: the most recent lines. A maximum that is \<open>undefined\<close>,
  \<open>NaN\<close> or \<open>0\<close> disables capping, and so does an infinite one: every line is kept.
\<close>

theorem diagnostic_buffer_capped:
  "(length ls = 150 \<longrightarrow>
      stderrLines (feed ls (new_FFmpegCommand None)) = drop 50 ls)
   \<and> (maximum c = Some (Fin a e) \<and> 0 < a \<and> 0 \<le> e
        \<and> length (stderrLines c) \<le> nat (a * 2 ^ nat e) \<longrightarrow>
        length (stderrLines (feed ls c)) \<le> nat (a * 2 ^ nat e)
        \<and> holds_at_most (Fin a e) (stderrLines (feed ls c))
        \<and> stderrLines (feed ls c) =
            drop (length (stderrLines c @ ls) - nat (a * 2 ^ nat e)) (stderrLines c @ ls))
   \<and> (maximum c = Some (Fin a e) \<and> 0 < a
        \<and> length (stderrLines c) \<le> nat (ceiling_fin a e) \<longrightarrow>
        length (stderrLines (feed ls c)) \<le> nat (ceiling_fin a e))
   \<and> (\<exists>k. stderrLines (feed ls c) = drop k (stderrLines c @ ls))
   \<and> (maximum c = None \<or> maximum c = Some NaN \<or> maximum c = Some (Fin 0 e)
        \<or> maximum c = Some PInf \<longrightarrow>
        stderrLines (feed ls c) = stderrLines c @ ls)"
proof (intro conjI impI)
  assume "length ls = 150"
  then show "stderrLines (feed ls (new_FFmpegCommand None)) = drop 50 ls"
    using feed_lines_int[of "new_FFmpegCommand None" 25 2 ls]
    by (simp add: new_FFmpegCommand_fields)
next
  assume a: "maximum c = Some (Fin a e) \<and> 0 < a \<and> 0 \<le> e
        \<and> length (stderrLines c) \<le> nat (a * 2 ^ nat e)"
  then show eq: "stderrLines (feed ls c) =
      drop (length (stderrLines c @ ls) - nat (a * 2 ^ nat e)) (stderrLines c @ ls)"
    using feed_lines_int[of c a e ls] by simp
  show len: "length (stderrLines (feed ls c)) \<le> nat (a * 2 ^ nat e)"
    unfolding eq by (simp del: drop_append)
  have "0 \<le> a * 2 ^ nat e" using a by simp
  then have "int (length (stderrLines (feed ls c))) \<le> a * 2 ^ nat e"
    using len by (simp add: le_nat_iff)
  then show "holds_at_most (Fin a e) (stderrLines (feed ls c))"
    using a by (simp add: holds_at_most_def)
next
  assume "maximum c = Some (Fin a e) \<and> 0 < a
        \<and> length (stderrLines c) \<le> nat (ceiling_fin a e)"
  then show "length (stderrLines (feed ls c)) \<le> nat (ceiling_fin a e)"
    using feed_length_pos[of c a e ls] by simp
next
  show "\<exists>k. stderrLines (feed ls c) = drop k (stderrLines c @ ls)" by (rule feed_suffix)
next
  assume "maximum c = None \<or> maximum c = Some NaN \<or> maximum c = Some (Fin 0 e)
        \<or> maximum c = Some PInf"
  then show "stderrLines (feed ls c) = stderrLines c @ ls" by (rule feed_lines_off)
qed

theorem diagnostic_buffer_capped_witness:
  "stderrLines (feed (some_lines 150) (new_FFmpegCommand None)) = drop 50 (some_lines 150)
   \<and> stderrLines (feed [''a'', ''b'', ''c'']
        (new_FFmpegCommand (Some (only_stdoutLines (Some (js_int 2)))))) = [''b'', ''c'']
   \<and> length (stderrLines (feed [''a'', ''b'', ''c'', ''d'']
        (new_FFmpegCommand (Some (only_stdoutLines (Some (Fin 5 (- 1)))))))) \<le> 3
   \<and> stderrLines (feed [''a'', ''b'', ''c'']
        (new_FFmpegCommand (Some (only_stdoutLines (Some (js_int 0)))))) = [''a'', ''b'', ''c'']
   \<and> stderrLines (feed [''a'', ''b'', ''c'']
        (new_FFmpegCommand (Some (only_stdoutLines None)))) = [''a'', ''b'', ''c'']"
proof (intro conjI)
  show "stderrLines (feed (some_lines 150) (new_FFmpegCommand None)) = drop 50 (some_lines 150)"
    using diagnostic_buffer_capped[of "some_lines 150"] by (simp add: some_lines_def)
next
  show "stderrLines (feed [''a'', ''b'', ''c'']
        (new_FFmpegCommand (Some (only_stdoutLines (Some (js_int 2)))))) = [''b'', ''c'']"
    using diagnostic_buffer_capped[of "[''a'', ''b'', ''c'']"
      "new_FFmpegCommand (Some (only_stdoutLines (Some (js_int 2))))" 1 1]
    by (simp add: new_FFmpegCommand_fields js_int_values)
next
  show "length (stderrLines (feed [''a'', ''b'', ''c'', ''d'']
        (new_FFmpegCommand (Some (only_stdoutLines (Some (Fin 5 (- 1)))))))) \<le> 3"
    using diagnostic_buffer_capped[of "[''a'', ''b'', ''c'', ''d'']"
      "new_FFmpegCommand (Some (only_stdoutLines (Some (Fin 5 (- 1)))))" 5 "- 1"]
    by (simp add: new_FFmpegCommand_fields ceiling_fin_def)
next
  show "stderrLines (feed [''a'', ''b'', ''c'']
        (new_FFmpegCommand (Some (only_stdoutLines (Some (js_int 0)))))) = [''a'', ''b'', ''c'']"
    using diagnostic_buffer_capped[of "[''a'', ''b'', ''c'']"
      "new_FFmpegCommand (Some (only_stdoutLines (Some (js_int 0))))" _ 0]
    by (simp add: new_FFmpegCommand_fields js_int_values)
next
  show "stderrLines (feed [''a'', ''b'', ''c'']
        (new_FFmpegCommand (Some (only_stdoutLines None)))) = [''a'', ''b'', ''c'']"
    using diagnostic_buffer_capped[of "[''a'', ''b'', ''c'']"
      "new_FFmpegCommand (Some (only_stdoutLines None))"]
    by (simp add: new_FFmpegCommand_fields)
qed

text \<open>
  Claim C8, as the specification states it, fails for a maximum that is not an
  integer: with the maximum \<open>2.5\<close>, the double \<open>5 * 2 ^ -1\<close>, three lines are fed and
  the buffer holds all three, more than the maximum. After the third line the guard
  \<open>3 > 2.5\<close> holds and \<open>slice(0.5)\<close> starts at \<open>0\<close>.
\<close>

theorem fractional_maximum_exceeded_counterexample:
  "stderrLines (feed [''a'', ''b'', ''c'']
     (new_FFmpegCommand (Some (only_stdoutLines (Some (Fin 5 (- 1))))))) = [''a'', ''b'', ''c'']
   \<and> \<not> holds_at_most (Fin 5 (- 1))
       (stderrLines (feed [''a'', ''b'', ''c'']
          (new_FFmpegCommand (Some (only_stdoutLines (Some (Fin 5 (- 1))))))))"
proof -
  have "stderrLines (feed [''a'', ''b'', ''c'']
     (new_FFmpegCommand (Some (only_stdoutLines (Some (Fin 5 (- 1))))))) = [''a'', ''b'', ''c'']"
    by (simp add: processStderr_lines processStderr_options maximum_def new_FFmpegCommand_def
        only_stdoutLines_def spread_over_def signed_round_def round_double_half
        trunc_fin_def slice_from_def processStderr_def)
  then show ?thesis by (simp add: holds_at_most_def)
qed

section \<open>The argument vector of \<open>run\<close>\<close>

lemma push_if_flag: "push_if t v f args = args @ flag t v f"
  by (simp add: push_if_def flag_def split: option.splits)

lemma push_audio_block: "push_audio a args = args @ audio_block a"
  by (simp add: push_audio_def audio_block_def push_if_flag split: option.splits)

lemma push_video_block: "push_video v args = args @ video_block v"
  by (simp add: push_video_def video_block_def push_if_flag Let_def split: option.splits)

lemma new_NamedPipeStream_world:
  "platform (snd (new_NamedPipeStream st cb w)) = platform w"
  "randomUUIDs (snd (new_NamedPipeStream st cb w)) = randomUUIDs w"
  "ffmpegPath (snd (new_NamedPipeStream st cb w)) = ffmpegPath w"
  "drawn (snd (new_NamedPipeStream st cb w)) = Suc (drawn w)"
  "url (fst (new_NamedPipeStream st cb w)) = bridge_address w (drawn w)"
  by (simp_all add: new_NamedPipeStream_def Let_def bridge_address_def)

lemma lower_input_args:
  "snd (lower_input (w, args) i) = args @ input_group (src_address w (drawn w) (in_src i)) i"
  by (simp add: lower_input_def push_src_def input_group_def push_if_flag src_address_def
      StreamInput_def new_NamedPipeStream_world split: Src.splits)

lemma lower_input_world:
  "platform (fst (lower_input (w, args) i)) = platform w"
  "randomUUIDs (fst (lower_input (w, args) i)) = randomUUIDs w"
  "ffmpegPath (fst (lower_input (w, args) i)) = ffmpegPath w"
  "drawn (fst (lower_input (w, args) i)) = (if is_stream_src (in_src i) then Suc (drawn w) else drawn w)"
  by (simp_all add: lower_input_def push_src_def StreamInput_def new_NamedPipeStream_world
      split: Src.splits)

lemma lower_output_args:
  "snd (lower_output (w, args) out) =
     args @ output_group (dst_address w (drawn w) (out_dst out)) out"
  by (simp add: lower_output_def push_dst_def output_group_def push_if_flag dst_address_def
      push_audio_block push_video_block
      StreamOutput_def new_NamedPipeStream_world split: Dst.splits)

lemma lower_output_world:
  "platform (fst (lower_output (w, args) out)) = platform w"
  "randomUUIDs (fst (lower_output (w, args) out)) = randomUUIDs w"
  "ffmpegPath (fst (lower_output (w, args) out)) = ffmpegPath w"
  "drawn (fst (lower_output (w, args) out)) = (if is_stream_dst (out_dst out) then Suc (drawn w) else drawn w)"
  by (simp_all add: lower_output_def push_dst_def StreamOutput_def new_NamedPipeStream_world
      split: Dst.splits)

lemma input_groups_cong:
  "platform w' = platform w \<Longrightarrow> randomUUIDs w' = randomUUIDs w \<Longrightarrow>
   input_groups w' n ins = input_groups w n ins"
  by (induction ins arbitrary: n)
     (simp_all add: src_address_def bridge_address_def split: Src.splits)

lemma output_groups_cong:
  "platform w' = platform w \<Longrightarrow> randomUUIDs w' = randomUUIDs w \<Longrightarrow>
   output_groups w' n outs = output_groups w n outs"
  by (induction outs arbitrary: n)
     (simp_all add: dst_address_def bridge_address_def split: Dst.splits)

lemma foldl_lower_input:
  "snd (foldl lower_input (w, args) ins) = args @ concat (input_groups w (drawn w) ins)
   \<and> platform (fst (foldl lower_input (w, args) ins)) = platform w
   \<and> randomUUIDs (fst (foldl lower_input (w, args) ins)) = randomUUIDs w
   \<and> ffmpegPath (fst (foldl lower_input (w, args) ins)) = ffmpegPath w
   \<and> drawn (fst (foldl lower_input (w, args) ins)) = drawn w + stream_inputs ins"
proof (induction ins arbitrary: w args)
  case Nil
  show ?case by (simp add: stream_inputs_def)
next
  case (Cons i ins)
  obtain w1 args1 where step: "lower_input (w, args) i = (w1, args1)"
    by (cases "lower_input (w, args) i")
  have a1: "args1 = args @ input_group (src_address w (drawn w) (in_src i)) i"
    using lower_input_args[of w args i] step by simp
  have w1: "platform w1 = platform w" "randomUUIDs w1 = randomUUIDs w"
    "ffmpegPath w1 = ffmpegPath w"
    "drawn w1 = (if is_stream_src (in_src i) then Suc (drawn w) else drawn w)"
    using lower_input_world[of w args i] step by simp_all
  have g: "\<And>n. input_groups w1 n ins = input_groups w n ins"
    using w1 by (intro input_groups_cong) simp_all
  show ?case
    using Cons.IH[of w1 args1] by (simp add: step a1 w1 g stream_inputs_def)
qed

lemma foldl_lower_output:
  "snd (foldl lower_output (w, args) outs) = args @ concat (output_groups w (drawn w) outs)
   \<and> platform (fst (foldl lower_output (w, args) outs)) = platform w
   \<and> randomUUIDs (fst (foldl lower_output (w, args) outs)) = randomUUIDs w
   \<and> ffmpegPath (fst (foldl lower_output (w, args) outs)) = ffmpegPath w
   \<and> drawn (fst (foldl lower_output (w, args) outs)) = drawn w + stream_outputs outs"
proof (induction outs arbitrary: w args)
  case Nil
  show ?case by (simp add: stream_outputs_def)
next
  case (Cons out outs)
  obtain w1 args1 where step: "lower_output (w, args) out = (w1, args1)"
    by (cases "lower_output (w, args) out")
  have a1: "args1 = args @ output_group (dst_address w (drawn w) (out_dst out)) out"
    using lower_output_args[of w args out] step by simp
  have w1: "platform w1 = platform w" "randomUUIDs w1 = randomUUIDs w"
    "ffmpegPath w1 = ffmpegPath w"
    "drawn w1 = (if is_stream_dst (out_dst out) then Suc (drawn w) else drawn w)"
    using lower_output_world[of w args out] step by simp_all
  have g: "\<And>n. output_groups w1 n outs = output_groups w n outs"
    using w1 by (intro output_groups_cong) simp_all
  show ?case
    using Cons.IH[of w1 args1] by (simp add: step a1 w1 g stream_outputs_def)
qed

text \<open>
  Claim C1. Whenever \<open>run\<close> yields its handle, the argument vector is the groups of
  the inputs, in the order the inputs were added, followed by the groups of the
  outputs, in the order the outputs were added. A group is \<open>input_group\<close> or
  \<open>output_group\<close>: the flags in the order the specification gives, then the source
  (\<open>-i\<close> and the path, or the address of the bridge made for the stream) or the
  destination.
\<close>

theorem run_orders_arguments:
  assumes "run w c = Inr (p, c', w')"
  shows "argv p = concat (input_groups w (drawn w) (inputs c))
                @ concat (output_groups w (drawn w + stream_inputs (inputs c)) (outputs c))"
proof -
  obtain w1 args1 where f1: "foldl lower_input (w, []) (inputs c) = (w1, args1)"
    by (cases "foldl lower_input (w, []) (inputs c)")
  have i: "args1 = concat (input_groups w (drawn w) (inputs c))"
    "platform w1 = platform w" "randomUUIDs w1 = randomUUIDs w"
    "drawn w1 = drawn w + stream_inputs (inputs c)"
    using foldl_lower_input[of w "[]" "inputs c"] f1 by simp_all
  have g: "\<And>n. output_groups w1 n (outputs c) = output_groups w n (outputs c)"
    using i by (intro output_groups_cong) simp_all
  have "argv p = snd (foldl lower_output (w1, args1) (outputs c))"
    using assms by (auto simp: run_def Let_def f1 split: if_splits)
  then show ?thesis
    using foldl_lower_output[of w1 args1 "outputs c"] by (simp add: i g)
qed

theorem run_orders_arguments_witness:
  "\<exists>p c' w'. run linux example_command = Inr (p, c', w')
     \<and> argv p =
        [''-thread_queue_size'', ''64'', ''-f'', ''mp4'', ''-ss'', ''00:01'', ''-i'', ''a.mp4'',
         ''-re'', ''-loop'', ''-1'', ''-i'', ''unix:/tmp/uuid-0.sock'',
         ''-t'', ''10'', ''-an'', ''-b:v'', ''1M'', ''-y'', ''out.mkv'',
         ''-f'', ''mp3'', ''-c:a'', ''libmp3lame'', ''-vn'', ''unix:/tmp/uuid-1.sock'']"
proof -
  obtain p c' w' where r: "run linux example_command = Inr (p, c', w')"
    by (simp add: run_def Let_def example_command_def)
  have "argv p =
        [''-thread_queue_size'', ''64'', ''-f'', ''mp4'', ''-ss'', ''00:01'', ''-i'', ''a.mp4'',
         ''-re'', ''-loop'', ''-1'', ''-i'', ''unix:/tmp/uuid-0.sock'',
         ''-t'', ''10'', ''-an'', ''-b:v'', ''1M'', ''-y'', ''out.mkv'',
         ''-f'', ''mp3'', ''-c:a'', ''libmp3lame'', ''-vn'', ''unix:/tmp/uuid-1.sock'']"
    unfolding run_orders_arguments[OF r]
    by (simp add: example_command_def linux_def group_defs stream_inputs_def dec.simps
        digit_char_def)
  with r show ?thesis by blast
qed

section \<open>Settings that are falsy\<close>

lemma js_int_0: "js_int 0 = Fin 0 0"
  by (simp add: js_int_def round_double_def)

lemma foldl_list_update_cong:
  assumes "\<And>st x. step st (f x) = step st (g x)"
  shows "foldl step st (xs[k := f (xs ! k)]) = foldl step st (xs[k := g (xs ! k)])"
proof (induction xs arbitrary: k st)
  case Nil
  show ?case by simp
next
  case (Cons x xs)
  show ?case
  proof (cases k)
    case 0
    then show ?thesis by (simp add: assms)
  next
    case (Suc j)
    then show ?thesis using Cons.IH[of _ j] by simp
  qed
qed

lemma run_arguments_with_input:
  assumes "\<And>st i. lower_input st (f i) = lower_input st (g i)"
  shows "run_arguments w (with_input k f c) = run_arguments w (with_input k g c)"
  using foldl_list_update_cong[of lower_input f g "(w, [])" "inputs c" k, OF assms]
  by (simp add: run_arguments_def run_def with_input_def Let_def)

lemma run_arguments_with_output:
  assumes "\<And>st out. lower_output st (f out) = lower_output st (g out)"
  shows "run_arguments w (with_output k f c) = run_arguments w (with_output k g c)"
  using foldl_list_update_cong[of lower_output f g
      "foldl lower_input (w, []) (inputs c)" "outputs c" k, OF assms]
  by (simp add: run_arguments_def run_def with_output_def Let_def)

lemma push_audio_cong:
  assumes "\<And>a. push_audio (Some (f a)) args = push_audio (Some (g a)) args"
  shows "push_audio (map_option f audio) args = push_audio (map_option g audio) args"
  using assms by (cases audio) (simp_all add: push_audio_def)

lemma lower_output_in_audio:
  assumes "\<And>a args. push_audio (Some (f a)) args = push_audio (Some (g a)) args"
  shows "lower_output st (in_audio f out) = lower_output st (in_audio g out)"
  using assms by (cases "out_audio out") (simp_all add: lower_output_def in_audio_def)

lemma lower_output_in_video:
  assumes "\<And>v args. push_video (Some (f v)) args = push_video (Some (g v)) args"
  shows "lower_output st (in_video f out) = lower_output st (in_video g out)"
  using assms by (cases "out_video out") (simp_all add: lower_output_def in_video_def)

text \<open>
  Claim C10. Each guard of \<open>run\<close> tests the truthiness of what is stored. A number
  set to \<open>0\<close>, or a format set to the empty string, on any input or output, leaves
  the argument vector (or the error) of \<open>run\<close> exactly as if the setting had never
  been made: no flag is emitted for it.
\<close>

theorem zero_settings_dropped:
  "run_arguments w (with_input k (\<lambda>i. i\<lparr> in_fps := Some (js_int 0) \<rparr>) c)
     = run_arguments w (with_input k (\<lambda>i. i\<lparr> in_fps := None \<rparr>) c)
   \<and> run_arguments w (with_input k (\<lambda>i. i\<lparr> in_startTime := Some (TimeNum (js_int 0)) \<rparr>) c)
     = run_arguments w (with_input k (\<lambda>i. i\<lparr> in_startTime := None \<rparr>) c)
   \<and> run_arguments w (with_input k (\<lambda>i. i\<lparr> in_format := Some [] \<rparr>) c)
     = run_arguments w (with_input k (\<lambda>i. i\<lparr> in_format := None \<rparr>) c)
   \<and> run_arguments w (with_output k (in_audio (\<lambda>a. a\<lparr> a_bitrate := Some (BitrateNum (js_int 0)) \<rparr>)) c)
     = run_arguments w (with_output k (in_audio (\<lambda>a. a\<lparr> a_bitrate := None \<rparr>)) c)
   \<and> run_arguments w (with_output k (in_audio (\<lambda>a. a\<lparr> a_channels := Some (js_int 0) \<rparr>)) c)
     = run_arguments w (with_output k (in_audio (\<lambda>a. a\<lparr> a_channels := None \<rparr>)) c)
   \<and> run_arguments w (with_output k (in_audio (\<lambda>a. a\<lparr> a_freq := Some (js_int 0) \<rparr>)) c)
     = run_arguments w (with_output k (in_audio (\<lambda>a. a\<lparr> a_freq := None \<rparr>)) c)
   \<and> run_arguments w (with_output k (in_audio (\<lambda>a. a\<lparr> a_quality := Some (js_int 0) \<rparr>)) c)
     = run_arguments w (with_output k (in_audio (\<lambda>a. a\<lparr> a_quality := None \<rparr>)) c)
   \<and> run_arguments w (with_output k (in_video (\<lambda>v. v\<lparr> v_fps := Some (js_int 0) \<rparr>)) c)
     = run_arguments w (with_output k (in_video (\<lambda>v. v\<lparr> v_fps := None \<rparr>)) c)
   \<and> run_arguments w (with_output k (in_video (\<lambda>v. v\<lparr> v_frames := Some (js_int 0) \<rparr>)) c)
     = run_arguments w (with_output k (in_video (\<lambda>v. v\<lparr> v_frames := None \<rparr>)) c)
   \<and> run_arguments w (with_output k (\<lambda>out. out\<lparr> out_startTime := Some (TimeNum (js_int 0)) \<rparr>) c)
     = run_arguments w (with_output k (\<lambda>out. out\<lparr> out_startTime := None \<rparr>) c)
   \<and> run_arguments w (with_output k (\<lambda>out. out\<lparr> out_duration := Some (TimeNum (js_int 0)) \<rparr>) c)
     = run_arguments w (with_output k (\<lambda>out. out\<lparr> out_duration := None \<rparr>) c)
   \<and> run_arguments w (with_output k (\<lambda>out. out\<lparr> out_format := Some [] \<rparr>) c)
     = run_arguments w (with_output k (\<lambda>out. out\<lparr> out_format := None \<rparr>) c)
   \<and> run_arguments w (with_output k (in_audio (\<lambda>a. a\<lparr> a_codec := Some [] \<rparr>)) c)
     = run_arguments w (with_output k (in_audio (\<lambda>a. a\<lparr> a_codec := None \<rparr>)) c)
   \<and> run_arguments w (with_output k (in_video (\<lambda>v. v\<lparr> v_codec := Some [] \<rparr>)) c)
     = run_arguments w (with_output k (in_video (\<lambda>v. v\<lparr> v_codec := None \<rparr>)) c)
   \<and> run_arguments w (with_output k (in_video (\<lambda>v. v\<lparr> v_bitrate := Some (BitrateNum (js_int 0)) \<rparr>)) c)
     = run_arguments w (with_output k (in_video (\<lambda>v. v\<lparr> v_bitrate := None \<rparr>)) c)"
proof (intro conjI)
  show "run_arguments w (with_input k (\<lambda>i. i\<lparr> in_fps := Some (js_int 0) \<rparr>) c)
     = run_arguments w (with_input k (\<lambda>i. i\<lparr> in_fps := None \<rparr>) c)"
    by (rule run_arguments_with_input) (simp add: lower_input_def push_if_def js_int_0)
  show "run_arguments w (with_input k (\<lambda>i. i\<lparr> in_startTime := Some (TimeNum (js_int 0)) \<rparr>) c)
     = run_arguments w (with_input k (\<lambda>i. i\<lparr> in_startTime := None \<rparr>) c)"
    by (rule run_arguments_with_input) (simp add: lower_input_def push_if_def js_int_0)
  show "run_arguments w (with_input k (\<lambda>i. i\<lparr> in_format := Some [] \<rparr>) c)
     = run_arguments w (with_input k (\<lambda>i. i\<lparr> in_format := None \<rparr>) c)"
    by (rule run_arguments_with_input) (simp add: lower_input_def push_if_def str_truthy_def)
  show "run_arguments w (with_output k (in_audio (\<lambda>a. a\<lparr> a_bitrate := Some (BitrateNum (js_int 0)) \<rparr>)) c)
     = run_arguments w (with_output k (in_audio (\<lambda>a. a\<lparr> a_bitrate := None \<rparr>)) c)"
    by (intro run_arguments_with_output lower_output_in_audio)
       (simp add: push_audio_def push_if_def js_int_0)
  show "run_arguments w (with_output k (in_audio (\<lambda>a. a\<lparr> a_channels := Some (js_int 0) \<rparr>)) c)
     = run_arguments w (with_output k (in_audio (\<lambda>a. a\<lparr> a_channels := None \<rparr>)) c)"
    by (intro run_arguments_with_output lower_output_in_audio)
       (simp add: push_audio_def push_if_def js_int_0)
  show "run_arguments w (with_output k (in_audio (\<lambda>a. a\<lparr> a_freq := Some (js_int 0) \<rparr>)) c)
     = run_arguments w (with_output k (in_audio (\<lambda>a. a\<lparr> a_freq := None \<rparr>)) c)"
    by (intro run_arguments_with_output lower_output_in_audio)
       (simp add: push_audio_def push_if_def js_int_0)
  show "run_arguments w (with_output k (in_audio (\<lambda>a. a\<lparr> a_quality := Some (js_int 0) \<rparr>)) c)
     = run_arguments w (with_output k (in_audio (\<lambda>a. a\<lparr> a_quality := None \<rparr>)) c)"
    by (intro run_arguments_with_output lower_output_in_audio)
       (simp add: push_audio_def push_if_def js_int_0)
  show "run_arguments w (with_output k (in_video (\<lambda>v. v\<lparr> v_fps := Some (js_int 0) \<rparr>)) c)
     = run_arguments w (with_output k (in_video (\<lambda>v. v\<lparr> v_fps := None \<rparr>)) c)"
    by (intro run_arguments_with_output lower_output_in_video)
       (simp add: push_video_def push_if_def js_int_0 resolvedFilters_def Let_def)
  show "run_arguments w (with_output k (in_video (\<lambda>v. v\<lparr> v_frames := Some (js_int 0) \<rparr>)) c)
     = run_arguments w (with_output k (in_video (\<lambda>v. v\<lparr> v_frames := None \<rparr>)) c)"
    by (intro run_arguments_with_output lower_output_in_video)
       (simp add: push_video_def push_if_def js_int_0 resolvedFilters_def Let_def)
  show "run_arguments w (with_output k (\<lambda>out. out\<lparr> out_startTime := Some (TimeNum (js_int 0)) \<rparr>) c)
     = run_arguments w (with_output k (\<lambda>out. out\<lparr> out_startTime := None \<rparr>) c)"
    by (rule run_arguments_with_output) (simp add: lower_output_def push_if_def js_int_0)
  show "run_arguments w (with_output k (\<lambda>out. out\<lparr> out_duration := Some (TimeNum (js_int 0)) \<rparr>) c)
     = run_arguments w (with_output k (\<lambda>out. out\<lparr> out_duration := None \<rparr>) c)"
    by (rule run_arguments_with_output) (simp add: lower_output_def push_if_def js_int_0)
  show "run_arguments w (with_output k (\<lambda>out. out\<lparr> out_format := Some [] \<rparr>) c)
     = run_arguments w (with_output k (\<lambda>out. out\<lparr> out_format := None \<rparr>) c)"
    by (rule run_arguments_with_output) (simp add: lower_output_def push_if_def str_truthy_def)
  show "run_arguments w (with_output k (in_audio (\<lambda>a. a\<lparr> a_codec := Some [] \<rparr>)) c)
     = run_arguments w (with_output k (in_audio (\<lambda>a. a\<lparr> a_codec := None \<rparr>)) c)"
    by (intro run_arguments_with_output lower_output_in_audio)
       (simp add: push_audio_def push_if_def str_truthy_def)
  show "run_arguments w (with_output k (in_video (\<lambda>v. v\<lparr> v_codec := Some [] \<rparr>)) c)
     = run_arguments w (with_output k (in_video (\<lambda>v. v\<lparr> v_codec := None \<rparr>)) c)"
    by (intro run_arguments_with_output lower_output_in_video)
       (simp add: push_video_def push_if_def str_truthy_def resolvedFilters_def Let_def)
  show "run_arguments w (with_output k (in_video (\<lambda>v. v\<lparr> v_bitrate := Some (BitrateNum (js_int 0)) \<rparr>)) c)
     = run_arguments w (with_output k (in_video (\<lambda>v. v\<lparr> v_bitrate := None \<rparr>)) c)"
    by (intro run_arguments_with_output lower_output_in_video)
       (simp add: push_video_def push_if_def js_int_0 resolvedFilters_def Let_def)
qed

theorem zero_settings_dropped_witness:
  "calls words
     [Input (SrcPath ''in.mp4''), InputFPS (js_int 0), Output (DstPath ''out.mp4''),
      Fps (js_int 0)]
     (new_FFmpegCommand None)
   = Inr (with_output 0 (in_video (\<lambda>v. v\<lparr> v_fps := Some (js_int 0) \<rparr>))
           (with_input 0 (\<lambda>i. i\<lparr> in_fps := Some (js_int 0) \<rparr>) plain_command))
   \<and> run_arguments linux
       (with_output 0 (in_video (\<lambda>v. v\<lparr> v_fps := Some (js_int 0) \<rparr>))
         (with_input 0 (\<lambda>i. i\<lparr> in_fps := Some (js_int 0) \<rparr>) plain_command))
     = Inr [''-i'', ''in.mp4'', ''out.mp4'']"
proof
  show "calls words
     [Input (SrcPath ''in.mp4''), InputFPS (js_int 0), Output (DstPath ''out.mp4''),
      Fps (js_int 0)]
     (new_FFmpegCommand None)
   = Inr (with_output 0 (in_video (\<lambda>v. v\<lparr> v_fps := Some (js_int 0) \<rparr>))
           (with_input 0 (\<lambda>i. i\<lparr> in_fps := Some (js_int 0) \<rparr>) plain_command))"
    by (simp add: builder_defs with_output_def with_input_def in_video_def plain_command_def)
  have "run_arguments linux
       (with_output 0 (in_video (\<lambda>v. v\<lparr> v_fps := Some (js_int 0) \<rparr>))
         (with_input 0 (\<lambda>i. i\<lparr> in_fps := Some (js_int 0) \<rparr>) plain_command))
     = run_arguments linux
       (with_output 0 (in_video (\<lambda>v. v\<lparr> v_fps := None \<rparr>))
         (with_input 0 (\<lambda>i. i\<lparr> in_fps := Some (js_int 0) \<rparr>) plain_command))"
    using zero_settings_dropped by blast
  also have "\<dots> = Inr [''-i'', ''in.mp4'', ''out.mp4'']"
    by (simp add: run_defs with_output_def with_input_def in_video_def plain_command_def
        builder_defs linux_def js_int_0)
  finally show "run_arguments linux
       (with_output 0 (in_video (\<lambda>v. v\<lparr> v_fps := Some (js_int 0) \<rparr>))
         (with_input 0 (\<lambda>i. i\<lparr> in_fps := Some (js_int 0) \<rparr>) plain_command))
     = Inr [''-i'', ''in.mp4'', ''out.mp4'']" .
qed

section \<open>Disabled tracks\<close>

lemma call_keeps_audio_disabled:
  assumes "audio_disabled c" and "\<not> is_Output x" and "call tok x c = Inr c'"
  shows "audio_disabled c'"
  using assms
  by (cases x)
     (auto simp: audio_disabled_def builder_defs split: if_splits option.splits sum.splits)

lemma call_keeps_video_disabled:
  assumes "video_disabled c" and "\<not> is_Output x" and "call tok x c = Inr c'"
  shows "video_disabled c'"
  using assms
  by (cases x)
     (auto simp: video_disabled_def builder_defs split: if_splits option.splits sum.splits)

lemma adds_output_Called: "adds_output (Called x) = is_Output x"
  by (cases x) simp_all

lemma outputs_activity_other:
  "outputs (on_spawn c) = outputs c" "outputs (processStderr line c) = outputs c"
  "outputs (on_end c) = outputs c" "outputs (on_error err c) = outputs c"
  by (simp_all add: on_spawn_def processStderr_def on_end_def on_error_def Let_def
      split: option.splits)

lemma activity_keeps_audio_disabled:
  assumes "audio_disabled c" and "\<not> adds_output a"
  shows "audio_disabled (activity tok a c)"
proof (cases a)
  case (Called x)
  show ?thesis
  proof (cases "call tok x c")
    case (Inl err)
    then show ?thesis using assms(1) Called by simp
  next
    case (Inr c')
    have "\<not> is_Output x" using assms(2) Called by (simp add: adds_output_Called)
    then have "audio_disabled c'" using assms(1) Inr call_keeps_audio_disabled by blast
    then show ?thesis using Inr Called by simp
  qed
qed (use assms(1) in \<open>simp_all add: audio_disabled_def outputs_activity_other\<close>)

lemma activity_keeps_video_disabled:
  assumes "video_disabled c" and "\<not> adds_output a"
  shows "video_disabled (activity tok a c)"
proof (cases a)
  case (Called x)
  show ?thesis
  proof (cases "call tok x c")
    case (Inl err)
    then show ?thesis using assms(1) Called by simp
  next
    case (Inr c')
    have "\<not> is_Output x" using assms(2) Called by (simp add: adds_output_Called)
    then have "video_disabled c'" using assms(1) Inr call_keeps_video_disabled by blast
    then show ?thesis using Inr Called by simp
  qed
qed (use assms(1) in \<open>simp_all add: video_disabled_def outputs_activity_other\<close>)

lemma activities_Cons: "activities tok (a # acts) c = activities tok acts (activity tok a c)"
  by (simp add: activities_def)

lemma activities_keep_audio_disabled:
  assumes "audio_disabled c" and "\<forall>a \<in> set acts. \<not> adds_output a"
  shows "audio_disabled (activities tok acts c)"
  using assms
proof (induction acts arbitrary: c)
  case Nil
  then show ?case by (simp add: activities_def)
next
  case (Cons a acts)
  have "audio_disabled (activity tok a c)"
    using Cons.prems by (intro activity_keeps_audio_disabled) simp_all
  then show ?case using Cons.IH Cons.prems(2) by (simp add: activities_Cons)
qed

lemma activities_keep_video_disabled:
  assumes "video_disabled c" and "\<forall>a \<in> set acts. \<not> adds_output a"
  shows "video_disabled (activities tok acts c)"
  using assms
proof (induction acts arbitrary: c)
  case Nil
  then show ?case by (simp add: activities_def)
next
  case (Cons a acts)
  have "video_disabled (activity tok a c)"
    using Cons.prems by (intro activity_keeps_video_disabled) simp_all
  then show ?case using Cons.IH Cons.prems(2) by (simp add: activities_Cons)
qed

lemma noAudio_disables: "noAudio c = Inr c' \<Longrightarrow> audio_disabled c'"
  by (auto simp: audio_disabled_def builder_defs split: if_splits)

lemma noVideo_disables: "noVideo c = Inr c' \<Longrightarrow> video_disabled c'"
  by (auto simp: video_disabled_def builder_defs split: if_splits)

lemma audio_setting_rejected:
  assumes "audio_disabled c" and "audio_setting a"
  shows "call tok a c = Inl (Error ''Audio disabled'')"
  using assms by (cases a) (auto simp: audio_disabled_def builder_defs)

lemma video_setting_rejected:
  assumes "video_disabled c" and "video_setting v"
  shows "call tok v c = Inl (Error ''Video disabled'')
         \<or> (\<exists>s err. v = SizeOf s \<and> parse_size s = Inl err \<and> call tok v c = Inl err)"
  using assms
  by (cases v) (auto simp: video_disabled_def builder_defs split: sum.splits)

lemma output_call_outputs: "outputs (output_call dst c) = outputs c @ [fresh_output dst]"
  by (simp add: output_call_def fresh_output_def)

lemma audio_setting_accepted:
  assumes "audio_setting a"
  shows "returned (call tok a (output_call dst c))"
  using assms by (cases a) (auto simp: returned_def builder_defs)

lemma video_setting_accepted:
  assumes "video_setting v" and "\<forall>s. v = SizeOf s \<longrightarrow> returned (parse_size s)"
  shows "returned (call tok v (output_call dst c))"
  using assms by (cases v) (auto simp: returned_def builder_defs split: sum.splits)

text \<open>
  Claim C7. After \<open>noAudio\<close>, and whatever follows that adds no output (calls that
  return, calls that throw, lines and notifications of a run), every call that sets
  an audio property throws \<open>Audio disabled\<close>. After \<open>noVideo\<close>, likewise, every call
  that sets a video property throws: \<open>Video disabled\<close>, or, for \<open>size\<close> with a
  malformed string, the validation error that \<open>size\<close> raises before it looks at the
  output. \<open>output\<close> then appends a fresh output, audio and video enabled with nothing
  set, and against it every audio-setting call returns, and every video-setting call
  (for \<open>size\<close>, with a well-formed string).
\<close>

theorem settings_after_disabling:
  assumes "\<forall>x \<in> set acts. \<not> adds_output x" and "c2 = activities tok acts c1"
  shows "(noAudio c = Inr c1 \<and> audio_setting a \<longrightarrow>
            call tok a c2 = Inl (Error ''Audio disabled''))
       \<and> (noVideo c = Inr c1 \<and> video_setting v \<longrightarrow>
            call tok v c2 = Inl (Error ''Video disabled'')
            \<or> (\<exists>s err. v = SizeOf s \<and> parse_size s = Inl err \<and> call tok v c2 = Inl err))
       \<and> outputs (output_call dst c2) = outputs c2 @ [fresh_output dst]
       \<and> (audio_setting a \<longrightarrow> returned (call tok a (output_call dst c2)))
       \<and> (video_setting v \<and> (\<forall>s. v = SizeOf s \<longrightarrow> returned (parse_size s)) \<longrightarrow>
            returned (call tok v (output_call dst c2)))"
proof (intro conjI impI)
  assume h: "noAudio c = Inr c1 \<and> audio_setting a"
  then have "audio_disabled c1" by (auto intro: noAudio_disables)
  then have "audio_disabled c2"
    unfolding assms(2) using assms(1) by (rule activities_keep_audio_disabled)
  then show "call tok a c2 = Inl (Error ''Audio disabled'')"
    using h audio_setting_rejected[of c2 a tok] by blast
next
  assume h: "noVideo c = Inr c1 \<and> video_setting v"
  then have "video_disabled c1" by (auto intro: noVideo_disables)
  then have "video_disabled c2"
    unfolding assms(2) using assms(1) by (rule activities_keep_video_disabled)
  then show "call tok v c2 = Inl (Error ''Video disabled'')
      \<or> (\<exists>s err. v = SizeOf s \<and> parse_size s = Inl err \<and> call tok v c2 = Inl err)"
    using h video_setting_rejected[of c2 v tok] by blast
next
  show "outputs (output_call dst c2) = outputs c2 @ [fresh_output dst]"
    by (rule output_call_outputs)
next
  assume "audio_setting a"
  then show "returned (call tok a (output_call dst c2))" by (rule audio_setting_accepted)
next
  assume "video_setting v \<and> (\<forall>s. v = SizeOf s \<longrightarrow> returned (parse_size s))"
  then show "returned (call tok v (output_call dst c2))"
    using video_setting_accepted[of v tok dst c2] by blast
qed

theorem settings_after_disabling_witness:
  "(\<exists>c1. noAudio plain_command = Inr c1
       \<and> call words (AudioChannels (js_int 2))
            (activities words
               [Called (VideoCodec ''libx264''), Called (AudioCodec ''aac''),
                Called (Input (SrcPath ''b.mp4'')), StderrLine ''frame=1''] c1)
           = Inl (Error ''Audio disabled'')
       \<and> returned (call words (AudioChannels (js_int 2))
            (output_call (DstPath ''b.mkv'')
              (activities words
                 [Called (VideoCodec ''libx264''), Called (AudioCodec ''aac''),
                  Called (Input (SrcPath ''b.mp4'')), StderrLine ''frame=1''] c1))))
   \<and> (\<exists>c1. noVideo plain_command = Inr c1
       \<and> call words (Fps (js_int 30))
            (activities words [Called (AudioCodec ''aac''), Called (Duration (TimeStr ''5''))] c1)
           = Inl (Error ''Video disabled'')
       \<and> returned (call words (Fps (js_int 30))
            (output_call (DstPath ''b.mkv'')
              (activities words
                 [Called (AudioCodec ''aac''), Called (Duration (TimeStr ''5''))] c1))))"
proof (intro conjI)
  obtain c1 where c1: "noAudio plain_command = Inr c1"
    by (simp add: plain_command_def builder_defs)
  have no: "\<forall>x \<in> set [Called (VideoCodec ''libx264''), Called (AudioCodec ''aac''),
                Called (Input (SrcPath ''b.mp4'')), StderrLine ''frame=1'']. \<not> adds_output x"
    by simp
  show "\<exists>c1. noAudio plain_command = Inr c1
       \<and> call words (AudioChannels (js_int 2))
            (activities words
               [Called (VideoCodec ''libx264''), Called (AudioCodec ''aac''),
                Called (Input (SrcPath ''b.mp4'')), StderrLine ''frame=1''] c1)
           = Inl (Error ''Audio disabled'')
       \<and> returned (call words (AudioChannels (js_int 2))
            (output_call (DstPath ''b.mkv'')
              (activities words
                 [Called (VideoCodec ''libx264''), Called (AudioCodec ''aac''),
                  Called (Input (SrcPath ''b.mp4'')), StderrLine ''frame=1''] c1)))"
    using c1
      settings_after_disabling[OF no refl, of plain_command c1 "AudioChannels (js_int 2)"
        words _ "DstPath ''b.mkv''"]
    by auto
next
  obtain c1 where c1: "noVideo plain_command = Inr c1"
    by (simp add: plain_command_def builder_defs)
  have no: "\<forall>x \<in> set [Called (AudioCodec ''aac''), Called (Duration (TimeStr ''5''))].
      \<not> adds_output x"
    by simp
  show "\<exists>c1. noVideo plain_command = Inr c1
       \<and> call words (Fps (js_int 30))
            (activities words [Called (AudioCodec ''aac''), Called (Duration (TimeStr ''5''))] c1)
           = Inl (Error ''Video disabled'')
       \<and> returned (call words (Fps (js_int 30))
            (output_call (DstPath ''b.mkv'')
              (activities words
                 [Called (AudioCodec ''aac''), Called (Duration (TimeStr ''5''))] c1)))"
    using c1
      settings_after_disabling[OF no refl, of plain_command c1 _ words "Fps (js_int 30)"
        "DstPath ''b.mkv''"]
    by auto
qed

section \<open>Running once\<close>

lemma proc_call: "call tok x c = Inr c' \<Longrightarrow> proc c' = proc c"
  by (cases x) (auto simp: builder_defs split: if_splits option.splits sum.splits)

lemma proc_activity: "proc (activity tok a c) = proc c"
proof (cases a)
  case (Called x)
  then show ?thesis by (auto simp: proc_call split: sum.splits)
next
  case Spawned
  then show ?thesis by (simp add: on_spawn_def split: option.splits)
next
  case (StderrLine line)
  then show ?thesis by (simp add: processStderr_def Let_def)
next
  case Ended
  then show ?thesis by (simp add: on_end_def)
next
  case (Failed err)
  then show ?thesis by (simp add: on_error_def)
qed

lemma proc_activities: "proc (activities tok acts c) = proc c"
  unfolding activities_def
  by (induction acts arbitrary: c) (simp_all add: proc_activity)

lemma run_sets_proc: "run w c = Inr (p, c1, w1) \<Longrightarrow> proc c1 = Some p"
  by (auto simp: run_def Let_def split: if_splits)

text \<open>
  Claim C6, as the code has it. Once a call of \<open>run\<close> has returned its handle, every
  later call of \<open>run\<close> on the command throws \<open>This instance is already run\<close>, in
  whatever world, and whatever happened in between: builder calls, the spawning of
  the process, lines of its stderr, its success or its failure.
\<close>

theorem run_after_run_throws:
  assumes "run w c = Inr (p, c1, w1)"
  shows "run w2 (activities tok acts c1) = Inl (Error ''This instance is already run'')"
proof -
  have "proc (activities tok acts c1) = Some p"
    using assms by (simp add: proc_activities run_sets_proc)
  then show ?thesis by (simp add: run_def)
qed

theorem run_after_run_throws_witness:
  "\<exists>p c1 w1. run linux example_command = Inr (p, c1, w1)
     \<and> run w1
         (activities words
            [Spawned, StderrLine ''frame=1'', Called (Input (SrcPath ''b.mp4'')), Failed ''exit 1'']
            c1)
       = Inl (Error ''This instance is already run'')"
proof -
  obtain p c1 w1 where r: "run linux example_command = Inr (p, c1, w1)"
    by (simp add: run_def Let_def example_command_def)
  show ?thesis using r run_after_run_throws[OF r] by blast
qed

text \<open>
  Claim C6, as the specification states it, fails where the first call of \<open>run\<close>
  threw: \<open>_proc\<close> is assigned only after \<open>execa\<close> has returned. On a new command
  \<open>run\<close> throws \<open>No inputs specified\<close>; once an input and an output are added, the
  second call of \<open>run\<close> returns its handle.
\<close>

theorem second_run_returns_counterexample:
  "run linux (new_FFmpegCommand None) = Inl (Error ''No inputs specified'')
   \<and> returned (run linux
        (output_call (DstPath ''out.mp4'') (input (SrcPath ''in.mp4'') (new_FFmpegCommand None))))"
  by (simp add: run_def Let_def returned_def builder_defs)

section \<open>The \<open>size\<close> method\<close>

lemma split_from_plain: "sep \<notin> set s \<Longrightarrow> split_from sep cur s = [cur @ s]"
  by (induction s arbitrary: cur) auto

lemma split_from_first:
  "sep \<notin> set a \<Longrightarrow> split_from sep cur (a @ sep # b) = (cur @ a) # split_from sep [] b"
  by (induction a arbitrary: cur) auto

lemma split_from_two:
  "sep \<notin> set a \<Longrightarrow> sep \<notin> set b \<Longrightarrow> split_from sep cur (a @ sep # b) = [cur @ a, b]"
  by (simp add: split_from_first split_from_plain)

lemma ends_with_percent: "ends_with ''%'' s = (s \<noteq> [] \<and> last s = CHR ''%'')"
proof (cases s rule: rev_cases)
  case Nil
  then show ?thesis by (simp add: ends_with_def)
next
  case (snoc xs x)
  then show ?thesis by (auto simp: ends_with_def)
qed

lemma parse_size_percent:
  "parse_size (p @ ''%'') =
     (if \<not> num_isFinite (js_parseFloat p) \<or> num_le_zero (js_parseFloat p)
      then Inl (Error (''Invalid size: '' @ p @ ''%''))
      else Inr (SizePercent (js_parseFloat p)))"
  by (simp add: parse_size_def ends_with_percent Let_def)

lemma js_split_two_tokens:
  assumes "two_tokens ws hs after"
  shows "\<exists>rest. js_split CHR ''x'' (size_string ws hs after) = ws # hs # rest"
proof (cases after)
  case Nil
  then show ?thesis using assms
    by (simp add: two_tokens_def size_string_def js_split_def split_from_two)
next
  case (Cons a as)
  then have "after = CHR ''x'' # as" using assms by (simp add: two_tokens_def)
  then show ?thesis using assms
    by (simp add: two_tokens_def size_string_def js_split_def split_from_first)
qed

lemma parse_size_two_tokens:
  assumes "two_tokens ws hs after"
  shows "parse_size (size_string ws hs after) = size_of_dimensions ws hs"
proof -
  obtain rest where sp: "js_split CHR ''x'' (size_string ws hs after) = ws # hs # rest"
    using js_split_two_tokens[OF assms] by blast
  have "\<not> ends_with ''%'' (size_string ws hs after)"
    using assms by (simp add: ends_with_percent two_tokens_def size_string_def)
  then show ?thesis using sp assms
    by (simp add: parse_size_def at_index_def str_truthy_def two_tokens_def)
qed

lemma parse_size_dimensions:
  assumes "CHR ''x'' \<notin> set ws" "CHR ''x'' \<notin> set hs" "ws \<noteq> []" "hs \<noteq> []"
    and "last hs \<noteq> CHR ''%''"
  shows "parse_size (ws @ ''x'' @ hs) = size_of_dimensions ws hs"
  using parse_size_two_tokens[of ws hs "[]"] assms by (simp add: two_tokens_def size_string_def)

lemma parse_size_one_token:
  assumes "CHR ''x'' \<notin> set s" and "\<not> ends_with ''%'' s"
  shows "parse_size s = Inl (Error (''Invalid size: '' @ s))"
  using assms
  by (simp add: parse_size_def js_split_def split_from_plain at_index_def)

lemma truthy_dimension: "\<not> num_isNaN n \<Longrightarrow> \<not> num_le_zero n \<Longrightarrow> num_truthy n"
  by (cases n) simp_all

lemma size_of_dimensions_cases:
  "size_of_dimensions ws hs = Inr sz \<Longrightarrow>
     (\<exists>w. sz = SizeWidth w None \<and> num_truthy w)
   \<or> (\<exists>w h. sz = SizeWidth w (Some h) \<and> num_truthy w \<and> num_truthy h)
   \<or> (\<exists>h. sz = SizeHeight h \<and> num_truthy h)"
  by (auto simp: size_of_dimensions_def size_of_width_def size_of_height_def bad_dimension_def
      Let_def truthy_dimension split: if_splits option.splits)

lemma parse_size_truthy:
  assumes "parse_size s = Inr sz"
  shows "(\<exists>pc. sz = SizePercent pc)
   \<or> (\<exists>w. sz = SizeWidth w None \<and> num_truthy w)
   \<or> (\<exists>w h. sz = SizeWidth w (Some h) \<and> num_truthy w \<and> num_truthy h)
   \<or> (\<exists>h. sz = SizeHeight h \<and> num_truthy h)"
proof (cases "ends_with ''%'' s")
  case True
  then show ?thesis using assms by (auto simp: parse_size_def Let_def split: if_splits)
next
  case False
  then obtain ws hs where "size_of_dimensions ws hs = Inr sz"
    using assms
    by (auto simp: parse_size_def Let_def split: if_splits option.splits)
  then show ?thesis using size_of_dimensions_cases by blast
qed


subsection \<open>What \<open>parseInt\<close> reads from a token\<close>














lemma parse_size_examples:
  "parse_size ''1280x720'' = Inr (SizeWidth (js_int 1280) (Some (js_int 720)))"
  "parse_size ''1280x?'' = Inr (SizeWidth (js_int 1280) None)"
  "parse_size ''?x720'' = Inr (SizeHeight (js_int 720))"
  "parse_size ''50%'' = Inr (SizePercent (js_int 50))"
  "parse_size ''0%'' = Inl (Error ''Invalid size: 0%'')"
  "parse_size ''abc'' = Inl (Error ''Invalid size: abc'')"
  "parse_size ''?x?'' =
     Inl (Error (''Width and height can'' @ [CHR 0x27] @ ''t both be unknown''))"
  "parse_size ''0x100'' = Inl (Error ''Invalid width: 0'')"
proof -
  show "parse_size ''1280x720'' = Inr (SizeWidth (js_int 1280) (Some (js_int 720)))"
    using parse_size_dimensions[of "''1280''" "''720''"]
    by (simp add: size_of_dimensions_def parse_dimension_def bad_dimension_def
        size_of_width_def js_parseInt_values js_int_values)
  show "parse_size ''1280x?'' = Inr (SizeWidth (js_int 1280) None)"
    using parse_size_dimensions[of "''1280''" "''?''"]
    by (simp add: size_of_dimensions_def parse_dimension_def bad_dimension_def
        size_of_width_def js_parseInt_values js_int_values)
  show "parse_size ''?x720'' = Inr (SizeHeight (js_int 720))"
    using parse_size_dimensions[of "''?''" "''720''"]
    by (simp add: size_of_dimensions_def parse_dimension_def bad_dimension_def
        size_of_width_def size_of_height_def js_parseInt_values js_int_values)
  show "parse_size ''50%'' = Inr (SizePercent (js_int 50))"
    using parse_size_percent[of "''50''"] by (simp add: js_parseFloat_values js_int_values)
  show "parse_size ''0%'' = Inl (Error ''Invalid size: 0%'')"
    using parse_size_percent[of "''0''"] by (simp add: js_parseFloat_values)
  show "parse_size ''abc'' = Inl (Error ''Invalid size: abc'')"
    using parse_size_one_token[of "''abc''"] by (simp add: ends_with_percent)
  show "parse_size ''?x?'' =
     Inl (Error (''Width and height can'' @ [CHR 0x27] @ ''t both be unknown''))"
    using parse_size_dimensions[of "''?''" "''?''"]
    by (simp add: size_of_dimensions_def parse_dimension_def bad_dimension_def
        size_of_width_def size_of_height_def)
  show "parse_size ''0x100'' = Inl (Error ''Invalid width: 0'')"
    using parse_size_dimensions[of "''0''" "''100''"]
    by (simp add: size_of_dimensions_def parse_dimension_def bad_dimension_def
        js_parseInt_values)
qed





section \<open>Records\<close>

lemma define_property_fresh:
  "fst kv \<notin> fst ` set obj \<Longrightarrow> define_property kv obj = obj @ [kv]"
  by (induction obj) auto

lemma own_properties_snoc:
  "own_properties (kvs @ [kv]) = define_property kv (own_properties kvs)"
  by (simp add: own_properties_def)

lemma own_properties_distinct:
  "distinct (map fst kvs) \<Longrightarrow> own_properties kvs = kvs"
proof (induction kvs rule: rev_induct)
  case Nil
  show ?case by (simp add: own_properties_def)
next
  case (snoc kv kvs)
  then have "own_properties kvs = kvs" "fst kv \<notin> fst ` set kvs" by auto
  then show ?case by (simp add: own_properties_snoc define_property_fresh)
qed

lemma object_entries_plain:
  assumes "\<forall>kv \<in> set props. \<not> is_array_index (fst kv)"
  shows "object_entries props = props"
proof -
  have "filter (\<lambda>kv. is_array_index (fst kv)) props = []" using assms by (simp add: filter_empty_conv)
  moreover have "filter (\<lambda>kv. \<not> is_array_index (fst kv)) props = props"
    using assms by (simp add: filter_id_conv)
  ultimately show ?thesis by (simp add: object_entries_def)
qed

lemma object_entries_order:
  "\<exists>ixs. object_entries props = ixs @ filter (\<lambda>kv. \<not> is_array_index (fst kv)) props
     \<and> set ixs = {kv \<in> set props. is_array_index (fst kv)}
     \<and> length ixs = length (filter (\<lambda>kv. is_array_index (fst kv)) props)
     \<and> sorted (map (\<lambda>kv. digits_val 10 (fst kv)) ixs)"
  by (rule exI[of _ "sort_key (\<lambda>kv. digits_val 10 (fst kv))
        (filter (\<lambda>kv. is_array_index (fst kv)) props)"])
     (auto simp: object_entries_def)

lemma not_index_w_h: "\<not> is_array_index ''w''" "\<not> is_array_index ''h''"
  by (simp_all add: is_array_index_def is_digit_def)

lemma scale_record:
  "options_toString (OptRecord [(''w'', a), (''h'', b)])
     = ''w='' @ js_toString a @ '':h='' @ js_toString b"
  using object_entries_plain[of "[(''w'', a), (''h'', b)]"]
  by (simp add: own_properties_def not_index_w_h key_value_def)

section \<open>The scale filter\<close>

lemma filter_toString_scale_dims:
  assumes "num_truthy w"
  shows "filter_toString (scale_filter (SizeWidth w None)) = ''scale=w='' @ num_toString w @ '':h=-2''"
    and "num_truthy h \<Longrightarrow>
         filter_toString (scale_filter (SizeWidth w (Some h)))
           = ''scale=w='' @ num_toString w @ '':h='' @ num_toString h"
    and "filter_toString (scale_filter (SizeHeight w)) = ''scale=w=-2:h='' @ num_toString w"
  using assms by (simp_all add: dimension_or_auto_def scale_record del: options_toString.simps)

lemma filter_toString_scale_percent:
  "filter_toString (scale_filter (SizePercent pc))
     = ''scale=w=trunc(iw*'' @ num_toString (num_div pc 100) @ ''/2)*2:h=trunc(ih*''
       @ num_toString (num_div pc 100) @ ''/2)*2''"
  by (simp add: scale_record del: options_toString.simps)

lemma index_keys:
  "is_array_index ''1''" "is_array_index ''2''" "\<not> is_array_index ''a''" "\<not> is_array_index ''b''"
  "digits_val 10 ''1'' = 1" "digits_val 10 ''2'' = 2"
  by (simp_all add: is_array_index_def is_digit_def digits_val_def digit_val_def)

text \<open>
  Claim C5, as the code has it. A size that is set puts a scale filter after the
  explicit video filters. A percentage \<open>pc\<close> gives \<open>w=trunc(iw*f/2)*2\<close> and
  \<open>h=trunc(ih*f/2)*2\<close> with \<open>f\<close> the number \<open>pc / 100\<close> as JavaScript prints it,
  \<open>0.5\<close> for fifty percent. For every size that \<open>size\<close> stores, an explicit
  dimension is printed as given and a dimension left open is \<open>-2\<close>. A filter that is
  a string is printed as it is, an object as \<open>name=opts\<close>, an array of options joined
  by colons, and the filters are joined by commas. A record is printed as its
  \<open>key=value\<close> pairs joined by colons in the order of \<open>Object.entries\<close>: first the
  keys that are array indices, in ascending numeric order, then the other keys in
  the order of insertion. That is the order of insertion when no key is an array
  index, as with the \<open>w\<close> and \<open>h\<close> of the scale filter. The video block ends with one
  \<open>-vf\<close> flag when the combined list is not empty, and has none otherwise.
\<close>

theorem size_lowered_to_scale_filter:
  "(v_size v = Some sz \<longrightarrow>
      resolvedFilters v = (case v_filters v of None \<Rightarrow> [] | Some fs \<Rightarrow> fs) @ [scale_filter sz])
   \<and> (v_size v = None \<longrightarrow>
      resolvedFilters v = (case v_filters v of None \<Rightarrow> [] | Some fs \<Rightarrow> fs))
   \<and> filter_toString (scale_filter (SizePercent pc))
       = ''scale=w=trunc(iw*'' @ num_toString (num_div pc 100) @ ''/2)*2:h=trunc(ih*''
         @ num_toString (num_div pc 100) @ ''/2)*2''
   \<and> filter_toString (scale_filter (SizePercent (js_int 50)))
       = ''scale=w=trunc(iw*0.5/2)*2:h=trunc(ih*0.5/2)*2''
   \<and> (parse_size s = Inr (SizeWidth wd (Some ht)) \<longrightarrow>
        filter_toString (scale_filter (SizeWidth wd (Some ht)))
          = ''scale=w='' @ num_toString wd @ '':h='' @ num_toString ht)
   \<and> (parse_size s = Inr (SizeWidth wd None) \<longrightarrow>
        filter_toString (scale_filter (SizeWidth wd None))
          = ''scale=w='' @ num_toString wd @ '':h=-2'')
   \<and> (parse_size s = Inr (SizeHeight ht) \<longrightarrow>
        filter_toString (scale_filter (SizeHeight ht))
          = ''scale=w=-2:h='' @ num_toString ht)
   \<and> filter_toString (FilterString name) = name
   \<and> filter_toString (FilterObject name (OptString opts)) = name @ ''='' @ opts
   \<and> filter_toString (FilterObject name (OptArray xs)) = name @ ''='' @ js_join '':'' xs
   \<and> (distinct (map fst kvs) \<and> (\<forall>kv \<in> set kvs. \<not> is_array_index (fst kv)) \<longrightarrow>
        filter_toString (FilterObject name (OptRecord kvs))
          = name @ ''='' @ js_join '':'' (map key_value kvs))
   \<and> (\<exists>ixs. filter_toString (FilterObject name (OptRecord kvs))
               = name @ ''='' @ js_join '':''
                   (map key_value
                      (ixs @ filter (\<lambda>kv. \<not> is_array_index (fst kv)) (own_properties kvs)))
            \<and> set ixs = {kv \<in> set (own_properties kvs). is_array_index (fst kv)}
            \<and> length ixs
                = length (filter (\<lambda>kv. is_array_index (fst kv)) (own_properties kvs))
            \<and> sorted (map (\<lambda>kv. digits_val 10 (fst kv)) ixs))
   \<and> filtersToString fs = js_join '','' (map filter_toString fs)
   \<and> push_video (Some v) args =
       args @ flag str_truthy (v_codec v) (\<lambda>c. [''-c:v'', c])
            @ flag bitrate_truthy (v_bitrate v) (\<lambda>b. [''-b:v'', bitrate_toString b])
            @ flag num_truthy (v_fps v) (\<lambda>n. [''-r'', num_toString n])
            @ flag num_truthy (v_frames v) (\<lambda>n. [''-frames:v'', num_toString n])
            @ (if resolvedFilters v = [] then []
               else [''-vf'', filtersToString (resolvedFilters v)])"
proof (intro conjI impI)
  show "filter_toString (scale_filter (SizePercent pc))
       = ''scale=w=trunc(iw*'' @ num_toString (num_div pc 100) @ ''/2)*2:h=trunc(ih*''
         @ num_toString (num_div pc 100) @ ''/2)*2''"
    by (rule filter_toString_scale_percent)
next
  show "filter_toString (scale_filter (SizePercent (js_int 50)))
       = ''scale=w=trunc(iw*0.5/2)*2:h=trunc(ih*0.5/2)*2''"
    unfolding filter_toString_scale_percent
    by (simp add: js_int_values num_div_values num_toString_values del: num_div.simps
        num_toString.simps)
next
  assume "parse_size s = Inr (SizeWidth wd (Some ht))"
  then have "num_truthy wd \<and> num_truthy ht" using parse_size_truthy[of s] by auto
  then show "filter_toString (scale_filter (SizeWidth wd (Some ht)))
          = ''scale=w='' @ num_toString wd @ '':h='' @ num_toString ht"
    using filter_toString_scale_dims(2)[of wd ht] by blast
next
  assume "parse_size s = Inr (SizeWidth wd None)"
  then have "num_truthy wd" using parse_size_truthy[of s] by auto
  then show "filter_toString (scale_filter (SizeWidth wd None))
          = ''scale=w='' @ num_toString wd @ '':h=-2''"
    by (rule filter_toString_scale_dims(1))
next
  assume "parse_size s = Inr (SizeHeight ht)"
  then have "num_truthy ht" using parse_size_truthy[of s] by auto
  then show "filter_toString (scale_filter (SizeHeight ht))
          = ''scale=w=-2:h='' @ num_toString ht"
    by (rule filter_toString_scale_dims(3))
next
  assume "distinct (map fst kvs) \<and> (\<forall>kv \<in> set kvs. \<not> is_array_index (fst kv))"
  then have "object_entries (own_properties kvs) = kvs"
    by (simp add: own_properties_distinct object_entries_plain)
  then show "filter_toString (FilterObject name (OptRecord kvs))
          = name @ ''='' @ js_join '':'' (map key_value kvs)"
    by simp
next
  obtain ixs where
    "object_entries (own_properties kvs)
       = ixs @ filter (\<lambda>kv. \<not> is_array_index (fst kv)) (own_properties kvs)
     \<and> set ixs = {kv \<in> set (own_properties kvs). is_array_index (fst kv)}
     \<and> length ixs = length (filter (\<lambda>kv. is_array_index (fst kv)) (own_properties kvs))
     \<and> sorted (map (\<lambda>kv. digits_val 10 (fst kv)) ixs)"
    using object_entries_order[of "own_properties kvs"] by blast
  then show "\<exists>ixs. filter_toString (FilterObject name (OptRecord kvs))
               = name @ ''='' @ js_join '':''
                   (map key_value
                      (ixs @ filter (\<lambda>kv. \<not> is_array_index (fst kv)) (own_properties kvs)))
            \<and> set ixs = {kv \<in> set (own_properties kvs). is_array_index (fst kv)}
            \<and> length ixs
                = length (filter (\<lambda>kv. is_array_index (fst kv)) (own_properties kvs))
            \<and> sorted (map (\<lambda>kv. digits_val 10 (fst kv)) ixs)"
    by (intro exI[of _ ixs]) simp
next
  show "push_video (Some v) args =
       args @ flag str_truthy (v_codec v) (\<lambda>c. [''-c:v'', c])
            @ flag bitrate_truthy (v_bitrate v) (\<lambda>b. [''-b:v'', bitrate_toString b])
            @ flag num_truthy (v_fps v) (\<lambda>n. [''-r'', num_toString n])
            @ flag num_truthy (v_frames v) (\<lambda>n. [''-frames:v'', num_toString n])
            @ (if resolvedFilters v = [] then []
               else [''-vf'', filtersToString (resolvedFilters v)])"
    by (simp add: push_video_block video_block_def)
qed (simp_all add: resolvedFilters_def filtersToString_def)

theorem size_lowered_to_scale_filter_witness:
  "resolvedFilters scaled_video =
     [FilterString ''hflip'', FilterObject ''crop'' (OptArray [''100'', ''80'']),
      scale_filter (SizePercent (js_int 50))]
   \<and> resolvedFilters (scaled_video\<lparr> v_size := None \<rparr>) =
     [FilterString ''hflip'', FilterObject ''crop'' (OptArray [''100'', ''80''])]
   \<and> filter_toString (scale_filter (SizeWidth (js_int 1280) (Some (js_int 720))))
       = ''scale=w=1280:h=720''
   \<and> filter_toString (scale_filter (SizeWidth (js_int 1280) None)) = ''scale=w=1280:h=-2''
   \<and> filter_toString (scale_filter (SizeHeight (js_int 720))) = ''scale=w=-2:h=720''
   \<and> filter_toString (FilterObject ''pad''
        (OptRecord [(''width'', VStr ''iw''), (''color'', VStr ''black'')]))
       = ''pad=width=iw:color=black''
   \<and> push_video (Some scaled_video) [''-i'', ''in.mp4''] =
       [''-i'', ''in.mp4'', ''-vf'',
        ''hflip,crop=100:80,scale=w=trunc(iw*0.5/2)*2:h=trunc(ih*0.5/2)*2'']"
proof (intro conjI)
  note scale = size_lowered_to_scale_filter
  show "resolvedFilters scaled_video =
     [FilterString ''hflip'', FilterObject ''crop'' (OptArray [''100'', ''80'']),
      scale_filter (SizePercent (js_int 50))]"
    using scale[where v = scaled_video and sz = "SizePercent (js_int 50)"]
    by (simp add: scaled_video_def)
  show "resolvedFilters (scaled_video\<lparr> v_size := None \<rparr>) =
     [FilterString ''hflip'', FilterObject ''crop'' (OptArray [''100'', ''80''])]"
    using scale[where v = "scaled_video\<lparr> v_size := None \<rparr>"] by (simp add: scaled_video_def)
  show "filter_toString (scale_filter (SizeWidth (js_int 1280) (Some (js_int 720))))
       = ''scale=w=1280:h=720''"
    using scale[where s = "''1280x720''" and wd = "js_int 1280" and ht = "js_int 720"]
    by (simp add: parse_size_examples js_int_values num_toString_values
        del: num_toString.simps filter_toString.simps scale_filter.simps)
  show "filter_toString (scale_filter (SizeWidth (js_int 1280) None)) = ''scale=w=1280:h=-2''"
    using scale[where s = "''1280x?''" and wd = "js_int 1280"]
    by (simp add: parse_size_examples js_int_values num_toString_values
        del: num_toString.simps filter_toString.simps scale_filter.simps)
  show "filter_toString (scale_filter (SizeHeight (js_int 720))) = ''scale=w=-2:h=720''"
    using scale[where s = "''?x720''" and ht = "js_int 720"]
    by (simp add: parse_size_examples js_int_values num_toString_values
        del: num_toString.simps filter_toString.simps scale_filter.simps)
  show "filter_toString (FilterObject ''pad''
        (OptRecord [(''width'', VStr ''iw''), (''color'', VStr ''black'')]))
       = ''pad=width=iw:color=black''"
    using scale[where name = "''pad''"
        and kvs = "[(''width'', VStr ''iw''), (''color'', VStr ''black'')]"]
    by (simp add: is_array_index_def is_digit_def key_value_def
        del: filter_toString.simps)
  have rf: "resolvedFilters scaled_video =
     [FilterString ''hflip'', FilterObject ''crop'' (OptArray [''100'', ''80'']),
      scale_filter (SizePercent (js_int 50))]"
    by (simp add: scaled_video_def resolvedFilters_def)
  have sc: "filter_toString (scale_filter (SizePercent (js_int 50)))
       = ''scale=w=trunc(iw*0.5/2)*2:h=trunc(ih*0.5/2)*2''"
    using scale by blast
  have fs: "filtersToString (resolvedFilters scaled_video)
      = ''hflip,crop=100:80,scale=w=trunc(iw*0.5/2)*2:h=trunc(ih*0.5/2)*2''"
    unfolding rf filtersToString_def using sc
    by (simp del: scale_filter.simps)
  show "push_video (Some scaled_video) [''-i'', ''in.mp4''] =
       [''-i'', ''in.mp4'', ''-vf'',
        ''hflip,crop=100:80,scale=w=trunc(iw*0.5/2)*2:h=trunc(ih*0.5/2)*2'']"
    using scale[where v = scaled_video and args = "[''-i'', ''in.mp4'']"] fs rf
    by (simp add: flag_def scaled_video_def)
qed

text \<open>
  Claim C5, as the specification states it, fails where a record has keys that are
  array indices: the record \<open>{ b: 1, 2: "x", a: 3, 1: "y" }\<close> is printed as
  \<open>1=y:2=x:b=1:a=3\<close>, which is not the order of insertion.
\<close>

theorem record_insertion_order_counterexample:
  "options_toString (OptRecord
      [(''b'', VNum (js_int 1)), (''2'', VStr ''x''), (''a'', VNum (js_int 3)), (''1'', VStr ''y'')])
     = ''1=y:2=x:b=1:a=3''
   \<and> insertion_order_toString
      [(''b'', VNum (js_int 1)), (''2'', VStr ''x''), (''a'', VNum (js_int 3)), (''1'', VStr ''y'')]
     = ''b=1:2=x:a=3:1=y''
   \<and> options_toString (OptRecord
      [(''b'', VNum (js_int 1)), (''2'', VStr ''x''), (''a'', VNum (js_int 3)), (''1'', VStr ''y'')])
     \<noteq> insertion_order_toString
      [(''b'', VNum (js_int 1)), (''2'', VStr ''x''), (''a'', VNum (js_int 3)), (''1'', VStr ''y'')]"
  by (simp add: insertion_order_toString_def own_properties_def object_entries_def index_keys
      key_value_def js_int_small num_toString_small del: num_toString.simps)

section \<open>The stream bridge at work\<close>

lemma bridge_run_Nil: "bridge_run np [] = np"
  by (simp add: bridge_run_def)

lemma bridge_run_Cons: "bridge_run np (ev # evs) = bridge_run (bridge_step np ev) evs"
  by (simp add: bridge_run_def)

lemma bridge_run_snoc: "bridge_run np (evs @ [ev]) = bridge_step (bridge_run np evs) ev"
  by (simp add: bridge_run_def)

lemma bridge_step_fixed:
  "onSocket (bridge_step np ev) = onSocket np" "bridged (bridge_step np ev) = bridged np"
  "url (bridge_step np ev) = url np" "socketPath (bridge_step np ev) = socketPath np"
  by (cases ev; simp add: server_close_def close_def)+

lemma closed_stays_closed: "\<not> listening np \<Longrightarrow> \<not> listening (bridge_step np ev)"
  by (cases ev) (simp_all add: server_close_def close_def)

lemma closed_run:
  "\<not> listening np \<Longrightarrow> \<not> listening (bridge_run np evs) \<and> pipes (bridge_run np evs) = pipes np"
proof (induction evs arbitrary: np)
  case Nil
  then show ?case by (simp add: bridge_run_Nil)
next
  case (Cons ev evs)
  have "\<not> listening (bridge_step np ev)" using Cons.prems by (rule closed_stays_closed)
  moreover have "pipes (bridge_step np ev) = pipes np"
    using Cons.prems by (cases ev) (simp_all add: server_close_def close_def)
  ultimately show ?case using Cons.IH[of "bridge_step np ev"] by (simp add: bridge_run_Cons)
qed

lemma close_closes: "is_close ev \<Longrightarrow> \<not> listening (bridge_step np ev)"
  by (cases ev) (simp_all add: server_close_def close_def)

lemma close_keeps_pipes: "is_close ev \<Longrightarrow> pipes (bridge_step np ev) = pipes np"
  by (cases ev) (simp_all add: server_close_def close_def)

lemma pipes_bridge_run:
  assumes "listening np"
  shows "pipes (bridge_run np evs)
           = pipes np @ map (on_socket (onSocket np) (bridged np)) (connections_before_close evs)"
  using assms
proof (induction evs arbitrary: np)
  case Nil
  show ?case by (simp add: bridge_run_Nil)
next
  case (Cons ev evs)
  show ?case
  proof (cases ev)
    case (Connect sock)
    let ?np = "bridge_step np ev"
    have l: "listening ?np" using Cons.prems Connect by simp
    show ?thesis
      using Cons.IH[OF l] Cons.prems Connect
      by (simp add: bridge_run_Cons)
  next
    case StreamClosed
    then have "\<not> listening (bridge_step np ev)" by (simp add: server_close_def)
    then show ?thesis
      using closed_run[of "bridge_step np ev" evs] StreamClosed
      by (simp add: bridge_run_Cons server_close_def)
  next
    case CloseCalled
    then have "\<not> listening (bridge_step np ev)" by (simp add: server_close_def close_def)
    then show ?thesis
      using closed_run[of "bridge_step np ev" evs] CloseCalled
      by (simp add: bridge_run_Cons server_close_def close_def)
  qed
qed

lemma new_NamedPipeStream_fields:
  "listening (fst (new_NamedPipeStream st cb w))"
  "pipes (fst (new_NamedPipeStream st cb w)) = []"
  "bridged (fst (new_NamedPipeStream st cb w)) = st"
  "onSocket (fst (new_NamedPipeStream st cb w)) = cb"
  by (simp_all add: new_NamedPipeStream_def Let_def)

text \<open>
  Claim C2, as the code has it. The server of a bridge is given its connection
  listener and is left listening until a close: every connection made before the
  first close is handed to the listener and piped, in the direction of the bridge,
  however many there are; no connection is serviced after a close. The source sets
  no limit of one connection.
\<close>

theorem every_connection_serviced:
  assumes "np = fst (new_NamedPipeStream st cb w)"
  shows "pipes (bridge_run np evs) = map (on_socket cb st) (connections_before_close evs)"
  using pipes_bridge_run[of np evs] assms by (simp add: new_NamedPipeStream_fields)

theorem every_connection_serviced_witness:
  "pipes (bridge_run (fst (new_NamedPipeStream 9 (IntoStream None) linux))
            [Connect 1, Connect 2, Connect 3, CloseCalled, Connect 4])
     = [PipeSocketToStream 1 9 None, PipeSocketToStream 2 9 None, PipeSocketToStream 3 9 None]"
  using every_connection_serviced
    [of "fst (new_NamedPipeStream 9 (IntoStream None) linux)" 9 "IntoStream None" linux
        "[Connect 1, Connect 2, Connect 3, CloseCalled, Connect 4]"]
  by simp

text \<open>
  Claim C2, as the specification states it, fails: two peers connect to the bridge
  of an input stream, and the stream is piped into both sockets.
\<close>

theorem second_connection_serviced_counterexample:
  "pipes (bridge_run (fst (StreamInput 7 linux)) [Connect 1, Connect 2])
     = [PipeStreamToSocket 7 1, PipeStreamToSocket 7 2]"
  by (simp add: bridge_run_def StreamInput_def new_NamedPipeStream_def Let_def)

text \<open>
  Claim C9. Once the bridged stream has emitted \<open>close\<close>, or \<open>close()\<close> has been
  called, the server does not listen, whatever else has happened and whether or not
  the other close ever comes; and a close after a close, in any combination, leaves
  the bridge exactly as it was: it is a step like any other, with no error.
\<close>

theorem close_closes_acceptor:
  "(StreamClosed \<in> set evs \<longrightarrow> \<not> listening (bridge_run np evs))
   \<and> (CloseCalled \<in> set evs \<longrightarrow> \<not> listening (bridge_run np evs))
   \<and> \<not> listening (close np)
   \<and> (is_close ev1 \<and> is_close ev2 \<longrightarrow>
        bridge_step (bridge_step np ev1) ev2 = bridge_step np ev1)"
proof -
  have closes: "\<not> listening (bridge_run np evs)" if "ev \<in> set evs" "is_close ev" for ev
  proof -
    from that(1) obtain xs ys where evs: "evs = xs @ ev # ys" by (auto simp: in_set_conv_decomp)
    have "\<not> listening (bridge_step (bridge_run np xs) ev)" using that(2) by (rule close_closes)
    then have "\<not> listening (bridge_run (bridge_step (bridge_run np xs) ev) ys)"
      using closed_run by blast
    then show ?thesis by (simp add: evs bridge_run_def)
  qed
  have twice: "bridge_step (bridge_step np ev1) ev2 = bridge_step np ev1"
    if "is_close ev1 \<and> is_close ev2"
    using that by (cases ev1; cases ev2) (simp_all add: server_close_def close_def)
  show ?thesis
    using closes[of StreamClosed] closes[of CloseCalled] twice
    by (simp add: close_def server_close_def)
qed

theorem close_closes_acceptor_witness:
  "\<not> listening (bridge_run (fst (StreamInput 7 linux)) [Connect 1, StreamClosed, Connect 2])
   \<and> \<not> listening (bridge_run (fst (StreamInput 7 linux)) [CloseCalled, StreamClosed])
   \<and> bridge_step (bridge_step (fst (StreamInput 7 linux)) StreamClosed) CloseCalled
       = bridge_step (fst (StreamInput 7 linux)) StreamClosed"
  using close_closes_acceptor
    [of "[Connect 1, StreamClosed, Connect 2]" "fst (StreamInput 7 linux)" StreamClosed CloseCalled]
    close_closes_acceptor
    [of "[CloseCalled, StreamClosed]" "fst (StreamInput 7 linux)"]
  by simp

end
